theory Spec2Isabelle
  imports Complex_Main "HOL-Library.AList" "HOL-Library.Sublist"
begin

section \<open>Python values used by the training harness\<close>

text \<open>
  A Python \<open>dict\<close> keeps its keys in insertion order; it is an association list here.
  Storing under a key that is present replaces the value in place, storing under a new
  key appends, which is what \<open>AList.update\<close> does.
\<close>

type_synonym ('k, 'v) dict = "('k \<times> 'v) list"

text \<open>\<open>a | b\<close>: a copy of \<open>a\<close> into which the items of \<open>b\<close> are stored in order.\<close>

definition dict_union :: "('k, 'v) dict \<Rightarrow> ('k, 'v) dict \<Rightarrow> ('k, 'v) dict" where
  "dict_union a b = fold (\<lambda>(k, v). AList.update k v) b a"

text \<open>A dict comprehension: the items are stored one after the other into an empty dict.\<close>

definition dict_of_items :: "('k \<times> 'v) list \<Rightarrow> ('k, 'v) dict" where
  "dict_of_items items = dict_union [] items"

text \<open>\<open>k.startswith("dev_")\<close> and \<open>k[4:]\<close>.\<close>

definition startswith_dev :: "string \<Rightarrow> bool" where
  "startswith_dev k = (take 4 k = ''dev_'')"

text \<open>
  Scalars that end up in a log record. The values are exact rationals (every float is
  one); rounding is not modelled. \<open>NaN\<close> is what a division \<open>0 / 0\<close> of tensors gives.
\<close>

datatype scalar = Num rat | NaN

type_synonym logs = "(string, scalar) dict"

datatype error =
    UnboundLocalError string
  | TypeError string
  | AttributeError string
  | FileNotFoundError string
  | ValueError string
  | SystemExit int

section \<open>The running mean of the loss\<close>

text \<open>
  Modelled from the spec: \<open>torchmetrics.MeanMetric\<close> is not part of the source. The spec's
  glossary calls a metric accumulator "a running aggregate (e.g., mean) updated per batch
  and reset per epoch/evaluation pass". The accumulator keeps the sum of the values and
  the sum of their weights; \<open>update\<close> with a scalar loss adds the value with weight one,
  \<open>compute\<close> divides the two and \<open>reset\<close> puts both back to zero.
\<close>

record mean_metric =
  mean_value :: rat
  weight :: rat

definition mean_reset :: "mean_metric \<Rightarrow> mean_metric" where
  "mean_reset m = m\<lparr>mean_value := 0, weight := 0\<rparr>"

definition mean_update :: "rat \<Rightarrow> mean_metric \<Rightarrow> mean_metric" where
  "mean_update v m = m\<lparr>mean_value := mean_value m + v, weight := weight m + 1\<rparr>"

definition mean_compute :: "mean_metric \<Rightarrow> scalar" where
  "mean_compute m = (if weight m = 0 then NaN else Num (mean_value m / weight m))"

section \<open>Tensors, devices and the library\<close>

text \<open>
  A device is named by its string (\<open>"cpu"\<close>, \<open>"cuda"\<close>, \<open>"cuda:1"\<close>). A tensor is its
  data together with the device it lives on; \<open>x.to(device)\<close> changes the device only.
\<close>

type_synonym device = string

type_synonym 'a tensor = "device \<times> 'a"

definition to :: "device \<Rightarrow> 'a tensor \<Rightarrow> 'a tensor" where
  "to d x = (d, snd x)"

text \<open>The inputs of a batch: a single tensor or a tuple of tensors.\<close>

datatype 'a inputs = Single "'a tensor" | Tuple "'a tensor list"

text \<open>\<open>tuple(x.to(device) for x in (xs if isinstance(xs, tuple) else (xs,)))\<close>\<close>

fun inputs_to :: "device \<Rightarrow> 'a inputs \<Rightarrow> 'a tensor list" where
  "inputs_to d (Single x) = [to d x]"
| "inputs_to d (Tuple xs) = map (to d) xs"

text \<open>
  What the harness calls but does not define: the subclass's \<open>forward\<close>, automatic
  differentiation, the optimizer, the learning-rate schedule and the metric collection.
  They are parameters of the model. Each is a total function of what it is given: a
  failure inside the library (shapes, devices, memory) is outside the model.
  \<^item> \<open>forward\<close> gets the training flag, whether gradients are recorded, the parameters
    with the device they live on, and the inputs;
  \<^item> \<open>autograd\<close> is \<open>loss.backward()\<close>: from the loss function, the training flag, the
    parameters, the inputs, the target and the gradients held so far it gives the
    gradients held afterwards;
  \<^item> \<open>optimizer_step\<close> updates the optimizer and the parameter values from the gradients;
  \<^item> \<open>schedule_step\<close> updates the schedule and the optimizer's learning rate;
    \<open>get_last_lr\<close> is the first element of the schedule's \<open>get_last_lr()\<close>;
  \<^item> \<open>collection_compute\<close> gives the items of the dictionary that
    \<open>MetricCollection.compute()\<close> returns, keyed by the metrics' names;
  \<^item> \<open>unbatch\<close> lists the examples of a batch of outputs (iteration over the first axis).
\<close>

record ('a, 'p, 'o, 'h, 'm) env =
  cuda_is_available :: bool
  forward :: "bool \<Rightarrow> bool \<Rightarrow> 'p tensor \<Rightarrow> 'a tensor list \<Rightarrow> 'a tensor"
  autograd :: "('a tensor \<Rightarrow> 'a tensor \<Rightarrow> rat) \<Rightarrow> bool \<Rightarrow> 'p tensor \<Rightarrow> 'a tensor list
                 \<Rightarrow> 'a tensor \<Rightarrow> 'p option \<Rightarrow> 'p option"
  optimizer_step :: "'o \<Rightarrow> 'p \<Rightarrow> 'p option \<Rightarrow> 'o \<times> 'p"
  schedule_step :: "'h \<Rightarrow> 'o \<Rightarrow> 'h \<times> 'o"
  get_last_lr :: "'h \<Rightarrow> rat"
  collection_reset :: "'m \<Rightarrow> 'm"
  collection_update :: "'m \<Rightarrow> 'a tensor \<Rightarrow> 'a tensor \<Rightarrow> 'm"
  collection_compute :: "'m \<Rightarrow> (string \<times> scalar) list"
  unbatch :: "'a \<Rightarrow> 'a list"

section \<open>The module and what it does to the outside\<close>

text \<open>
  Every call that leaves the harness is recorded, in order, in the \<open>trace\<close> of the state:
  mode switches, resets and updates of the accumulators, the calls of a training step,
  progress-bar descriptions (with the \<open>disable\<close> argument of the bar, the epoch number,
  the epoch count and the record shown), callbacks (position in the list, epoch index,
  record passed), TensorBoard writers (stream name and directory on creation; directory,
  key, value and step of a scalar; directory of a flush) and console lines. Formatting of
  numbers and elapsed time are not part of an event.
\<close>

datatype event =
    EvTrain
  | EvEval
  | EvLossReset
  | EvMetricsReset
  | EvZeroGrad
  | EvForward bool
  | EvLoss rat
  | EvBackward
  | EvOptimizerStep
  | EvScheduleStep
  | EvLossUpdate rat
  | EvMetricsUpdate
  | EvProgress "bool option" nat int logs
  | EvCallback nat nat logs
  | EvNewWriter string string
  | EvAddScalar string string scalar nat
  | EvFlush string
  | EvPrintEvaluation logs
  | EvPrintEpoch nat int logs

text \<open>
  The state of a \<open>TrainableModule\<close> on which \<open>configure\<close> has run, and the files it reads
  and writes. \<open>params\<close> is the content of \<open>state_dict()\<close>, \<open>placement\<close> the device the
  parameters live on, \<open>grads\<close> their gradients (\<open>None\<close> after \<open>zero_grad\<close>), \<open>training\<close>
  the flag set by \<open>train()\<close> and \<open>eval()\<close>. The other fields are the attributes that
  \<open>configure\<close> assigns; \<open>optimizer\<close>, \<open>schedule\<close>, \<open>loss\<close> and \<open>logdir\<close> default to
  \<open>None\<close> there. \<open>writers\<close> maps a stream name to the directory of its writer.
  \<open>files\<close> holds the weight files written by \<open>torch.save\<close>.
\<close>

record ('a, 'p, 'o, 'h, 'm) state =
  params :: 'p
  placement :: device
  grads :: "'p option"
  training :: bool
  optimizer :: "'o option"
  schedule :: "'h option"
  loss :: "('a tensor \<Rightarrow> 'a tensor \<Rightarrow> rat) option"
  loss_metric :: mean_metric
  metrics :: 'm
  logdir :: "string option"
  writers :: "(string, string) dict"
  device :: device
  files :: "string \<rightharpoonup> 'p tensor"
  trace :: "event list"

definition emit :: "event \<Rightarrow> ('a, 'p, 'o, 'h, 'm) state \<Rightarrow> ('a, 'p, 'o, 'h, 'm) state" where
  "emit e s = s\<lparr>trace := trace s @ [e]\<rparr>"

text \<open>A call returns the state it leaves behind and either the exception or the value.\<close>

type_synonym ('s, 'r) outcome = "'s \<times> (error + 'r)"

section \<open>Single steps\<close>

text \<open>\<open>train_step\<close>. Calling \<open>None\<close> as a loss is a TypeError, \<open>None.step()\<close> an AttributeError.\<close>

definition train_step ::
  "('a, 'p, 'o, 'h, 'm) env \<Rightarrow> ('a, 'p, 'o, 'h, 'm) state \<Rightarrow> 'a tensor list \<Rightarrow> 'a tensor
     \<Rightarrow> (('a, 'p, 'o, 'h, 'm) state, logs) outcome" where
  "train_step E s xs y =
     (let s1 = emit EvZeroGrad (s\<lparr>grads := None\<rparr>);
          y_pred = forward E (training s1) True (placement s1, params s1) xs;
          s2 = emit (EvForward True) s1
      in case loss s2 of
           None \<Rightarrow> (s2, Inl (TypeError ''NoneType object is not callable''))
         | Some l \<Rightarrow>
             (let v = l y_pred y;
                  s3 = emit (EvLoss v) s2;
                  s4 = emit EvBackward
                         (s3\<lparr>grads := autograd E l (training s3) (placement s3, params s3) xs y (grads s3)\<rparr>)
              in (case optimizer s4 of
                    None \<Rightarrow> (s4, Inl (AttributeError ''NoneType object has no attribute step''))
                  | Some opt \<Rightarrow>
                      (let (opt', p') = optimizer_step E opt (params s4) (grads s4);
                           s5 = emit EvOptimizerStep (s4\<lparr>optimizer := Some opt', params := p'\<rparr>);
                           s6 = (case schedule s5 of
                                   None \<Rightarrow> s5
                                 | Some h \<Rightarrow>
                                     (let (h', opt'') = schedule_step E h opt'
                                      in emit EvScheduleStep
                                           (s5\<lparr>schedule := Some h', optimizer := Some opt''\<rparr>)));
                           s7 = emit (EvLossUpdate v) (s6\<lparr>loss_metric := mean_update v (loss_metric s6)\<rparr>);
                           s8 = emit EvMetricsUpdate
                                  (s7\<lparr>metrics := collection_update E (metrics s7) y_pred y\<rparr>)
                       in (s8, Inr (dict_union
                                     (dict_union [(''loss'', mean_compute (loss_metric s8))]
                                        (case schedule s8 of
                                           None \<Rightarrow> []
                                         | Some h \<Rightarrow> [(''lr'', Num (get_last_lr E h))]))
                                     (collection_compute E (metrics s8))))))))"

text \<open>\<open>test_step\<close>: everything runs under \<open>torch.no_grad()\<close>.\<close>

definition test_step ::
  "('a, 'p, 'o, 'h, 'm) env \<Rightarrow> ('a, 'p, 'o, 'h, 'm) state \<Rightarrow> 'a tensor list \<Rightarrow> 'a tensor
     \<Rightarrow> (('a, 'p, 'o, 'h, 'm) state, logs) outcome" where
  "test_step E s xs y =
     (let y_pred = forward E (training s) False (placement s, params s) xs;
          s1 = emit (EvForward False) s
      in case loss s1 of
           None \<Rightarrow> (s1, Inl (TypeError ''NoneType object is not callable''))
         | Some l \<Rightarrow>
             let v = l y_pred y;
                 s2 = emit (EvLoss v) s1;
                 s3 = emit (EvLossUpdate v) (s2\<lparr>loss_metric := mean_update v (loss_metric s2)\<rparr>);
                 s4 = emit EvMetricsUpdate (s3\<lparr>metrics := collection_update E (metrics s3) y_pred y\<rparr>)
             in (s4, Inr (dict_union [(''loss'', mean_compute (loss_metric s4))]
                            (collection_compute E (metrics s4)))))"


section \<open>Evaluation\<close>

text \<open>
  The loop of \<open>evaluate\<close>. The local variable \<open>logs\<close> is unbound (\<open>None\<close> here) until the
  first batch has been processed.
\<close>

fun evaluate_loop ::
  "('a, 'p, 'o, 'h, 'm) env \<Rightarrow> ('a, 'p, 'o, 'h, 'm) state \<Rightarrow> ('a inputs \<times> 'a tensor) list
     \<Rightarrow> logs option \<Rightarrow> (('a, 'p, 'o, 'h, 'm) state, logs option) outcome" where
  "evaluate_loop E s [] lg = (s, Inr lg)"
| "evaluate_loop E s ((xs, y) # bs) lg =
     (case test_step E s (inputs_to (device s) xs) (to (device s) y) of
        (s1, Inl e) \<Rightarrow> (s1, Inl e)
      | (s1, Inr l) \<Rightarrow> evaluate_loop E s1 bs (Some l))"

definition reset_metrics :: "('a, 'p, 'o, 'h, 'm) env \<Rightarrow> ('a, 'p, 'o, 'h, 'm) state \<Rightarrow> ('a, 'p, 'o, 'h, 'm) state" where
  "reset_metrics E s =
     (let s1 = emit EvLossReset (s\<lparr>loss_metric := mean_reset (loss_metric s)\<rparr>)
      in emit EvMetricsReset (s1\<lparr>metrics := collection_reset E (metrics s1)\<rparr>))"

text \<open>
  \<open>evaluate\<close>. Reading the unbound \<open>logs\<close> raises, in the \<open>print\<close> when \<open>verbose\<close> is
  true and in the \<open>return\<close> otherwise.
\<close>

definition evaluate ::
  "('a, 'p, 'o, 'h, 'm) env \<Rightarrow> ('a, 'p, 'o, 'h, 'm) state \<Rightarrow> ('a inputs \<times> 'a tensor) list \<Rightarrow> int
     \<Rightarrow> (('a, 'p, 'o, 'h, 'm) state, logs) outcome" where
  "evaluate E s dataloader verbose =
     (let s1 = reset_metrics E (emit EvEval (s\<lparr>training := False\<rparr>))
      in case evaluate_loop E s1 dataloader None of
           (s2, Inl e) \<Rightarrow> (s2, Inl e)
         | (s2, Inr None) \<Rightarrow> (s2, Inl (UnboundLocalError ''logs''))
         | (s2, Inr (Some lg)) \<Rightarrow>
             (if verbose \<noteq> 0 then emit (EvPrintEvaluation lg) s2 else s2, Inr lg))"

section \<open>Scalar logging\<close>

text \<open>\<open>os.path.join\<close> of two components (POSIX).\<close>

definition path_join :: "string \<Rightarrow> string \<Rightarrow> string" where
  "path_join a b =
     (if b \<noteq> [] \<and> hd b = CHR ''/'' then b
      else if a = [] \<or> last a = CHR ''/'' then a @ b
      else a @ ''/'' @ b)"

text \<open>
  \<open>writer\<close>: the writer of a stream is created on first use and kept in \<open>_writers\<close>.
  With no log directory the path cannot be built (\<open>os.path.join(None, ...)\<close>).
\<close>

definition writer ::
  "('a, 'p, 'o, 'h, 'm) state \<Rightarrow> string \<Rightarrow> (('a, 'p, 'o, 'h, 'm) state, string) outcome" where
  "writer s w =
     (case map_of (writers s) w of
        Some p \<Rightarrow> (s, Inr p)
      | None \<Rightarrow>
          (case logdir s of
             None \<Rightarrow> (s, Inl (TypeError ''expected str, bytes or os.PathLike object, not NoneType''))
           | Some d \<Rightarrow>
               let p = path_join d w
               in (emit (EvNewWriter w p) (s\<lparr>writers := AList.update w p (writers s)\<rparr>), Inr p)))"

fun add_scalars ::
  "('a, 'p, 'o, 'h, 'm) state \<Rightarrow> string \<Rightarrow> (string \<times> scalar) list \<Rightarrow> nat
     \<Rightarrow> (('a, 'p, 'o, 'h, 'm) state, unit) outcome" where
  "add_scalars s w [] step = (s, Inr ())"
| "add_scalars s w ((key, val) # rest) step =
     (case writer s w of
        (s1, Inl e) \<Rightarrow> (s1, Inl e)
      | (s1, Inr p) \<Rightarrow> add_scalars (emit (EvAddScalar p key val step) s1) w rest step)"

text \<open>\<open>if logs and self.logdir\<close>: an empty dict, \<open>None\<close> and the empty string are false.\<close>

definition logdir_true :: "('a, 'p, 'o, 'h, 'm) state \<Rightarrow> bool" where
  "logdir_true s = (case logdir s of None \<Rightarrow> False | Some d \<Rightarrow> d \<noteq> [])"

definition add_logs ::
  "('a, 'p, 'o, 'h, 'm) state \<Rightarrow> string \<Rightarrow> logs \<Rightarrow> nat \<Rightarrow> (('a, 'p, 'o, 'h, 'm) state, unit) outcome" where
  "add_logs s w lg step =
     (if lg \<noteq> [] \<and> logdir_true s then
        (case add_scalars s w lg step of
           (s1, Inl e) \<Rightarrow> (s1, Inl e)
         | (s1, Inr u) \<Rightarrow>
             (case writer s1 w of
                (s2, Inl e) \<Rightarrow> (s2, Inl e)
              | (s2, Inr p) \<Rightarrow> (emit (EvFlush p) s2, Inr ())))
      else (s, Inr ()))"

section \<open>Training\<close>

text \<open>
  A callback gets the module, the epoch index and the record. It may change the module
  and, the record being a mutable dict, the record; its return value is ignored. What a
  callback does inside is one event of the trace.
\<close>

type_synonym ('a, 'p, 'o, 'h, 'm) callback =
  "('a, 'p, 'o, 'h, 'm) state \<Rightarrow> nat \<Rightarrow> logs \<Rightarrow> ('a, 'p, 'o, 'h, 'm) state \<times> logs"

fun run_callbacks ::
  "('a, 'p, 'o, 'h, 'm) callback list \<Rightarrow> nat \<Rightarrow> nat \<Rightarrow> ('a, 'p, 'o, 'h, 'm) state \<Rightarrow> logs
     \<Rightarrow> ('a, 'p, 'o, 'h, 'm) state \<times> logs" where
  "run_callbacks [] i epoch s lg = (s, lg)"
| "run_callbacks (cb # cbs) i epoch s lg =
     (let (s1, lg1) = cb s epoch lg
      in run_callbacks cbs (Suc i) epoch (s1\<lparr>trace := trace s @ [EvCallback i epoch lg]\<rparr>) lg1)"

text \<open>\<open>disable=None if verbose == 2 else not verbose\<close>\<close>

definition progress_disable :: "int \<Rightarrow> bool option" where
  "progress_disable verbose = (if verbose = 2 then None else Some (verbose = 0))"

text \<open>The loop over the batches of one epoch; \<open>logs\<close> keeps its value from before the loop.\<close>

fun fit_batches ::
  "('a, 'p, 'o, 'h, 'm) env \<Rightarrow> int \<Rightarrow> int \<Rightarrow> nat \<Rightarrow> ('a, 'p, 'o, 'h, 'm) state
     \<Rightarrow> ('a inputs \<times> 'a tensor) list \<Rightarrow> logs option
     \<Rightarrow> (('a, 'p, 'o, 'h, 'm) state, logs option) outcome" where
  "fit_batches E epochs verbose epoch s [] lg = (s, Inr lg)"
| "fit_batches E epochs verbose epoch s ((xs, y) # bs) lg =
     (case train_step E s (inputs_to (device s) xs) (to (device s) y) of
        (s1, Inl e) \<Rightarrow> (s1, Inl e)
      | (s1, Inr l) \<Rightarrow>
          fit_batches E epochs verbose epoch
            (emit (EvProgress (progress_disable verbose) (epoch + 1) epochs l) s1) bs (Some l))"

text \<open>\<open>logs |= {"dev_" + k: v for k, v in self.evaluate(dev, verbose=0).items()}\<close>\<close>

definition with_dev ::
  "('a, 'p, 'o, 'h, 'm) env \<Rightarrow> ('a, 'p, 'o, 'h, 'm) state \<Rightarrow> ('a inputs \<times> 'a tensor) list option
     \<Rightarrow> logs \<Rightarrow> (('a, 'p, 'o, 'h, 'm) state, logs) outcome" where
  "with_dev E s dev lg =
     (case dev of
        None \<Rightarrow> (s, Inr lg)
      | Some d \<Rightarrow>
          (case evaluate E s d 0 of
             (s1, Inl e) \<Rightarrow> (s1, Inl e)
           | (s1, Inr dl) \<Rightarrow>
               (s1, Inr (dict_union lg (dict_of_items (map (\<lambda>(k, v). (''dev_'' @ k, v)) dl))))))"

text \<open>The two records handed to \<open>add_logs\<close>.\<close>

definition train_part :: "logs \<Rightarrow> logs" where
  "train_part lg = dict_of_items (filter (\<lambda>(k, v). \<not> startswith_dev k) lg)"

definition dev_part :: "logs \<Rightarrow> logs" where
  "dev_part lg = dict_of_items (map (\<lambda>(k, v). (drop 4 k, v)) (filter (\<lambda>(k, v). startswith_dev k) lg))"

text \<open>
  The body of the epoch loop. After the batches the first thing read is \<open>logs\<close>, which is
  unbound when no batch has been processed in this call of \<open>fit\<close>.
\<close>

definition fit_epoch ::
  "('a, 'p, 'o, 'h, 'm) env \<Rightarrow> ('a inputs \<times> 'a tensor) list \<Rightarrow> int
     \<Rightarrow> ('a inputs \<times> 'a tensor) list option \<Rightarrow> ('a, 'p, 'o, 'h, 'm) callback list \<Rightarrow> int
     \<Rightarrow> nat \<Rightarrow> ('a, 'p, 'o, 'h, 'm) state \<Rightarrow> logs option
     \<Rightarrow> (('a, 'p, 'o, 'h, 'm) state, logs option) outcome" where
  "fit_epoch E dataloader epochs dev callbacks verbose epoch s lg =
     (let s1 = reset_metrics E (emit EvTrain (s\<lparr>training := True\<rparr>))
      in case fit_batches E epochs verbose epoch s1 dataloader lg of
           (s2, Inl e) \<Rightarrow> (s2, Inl e)
         | (s2, Inr None) \<Rightarrow> (s2, Inl (UnboundLocalError ''logs''))
         | (s2, Inr (Some l)) \<Rightarrow>
             (case with_dev E s2 dev l of
                (s3, Inl e) \<Rightarrow> (s3, Inl e)
              | (s3, Inr l1) \<Rightarrow>
                  (let (s4, l2) = run_callbacks callbacks 0 epoch s3 l1
                   in (case add_logs s4 ''train'' (train_part l2) (epoch + 1) of
                         (s5, Inl e) \<Rightarrow> (s5, Inl e)
                       | (s5, Inr u) \<Rightarrow>
                           (case add_logs s5 ''dev'' (dev_part l2) (epoch + 1) of
                              (s6, Inl e) \<Rightarrow> (s6, Inl e)
                            | (s6, Inr u') \<Rightarrow>
                                (if verbose \<noteq> 0 then emit (EvPrintEpoch (epoch + 1) epochs l2) s6
                                 else s6,
                                 Inr (Some l2)))))))"

fun fit_epochs ::
  "('a, 'p, 'o, 'h, 'm) env \<Rightarrow> ('a inputs \<times> 'a tensor) list \<Rightarrow> int
     \<Rightarrow> ('a inputs \<times> 'a tensor) list option \<Rightarrow> ('a, 'p, 'o, 'h, 'm) callback list \<Rightarrow> int
     \<Rightarrow> nat list \<Rightarrow> ('a, 'p, 'o, 'h, 'm) state \<Rightarrow> logs option
     \<Rightarrow> (('a, 'p, 'o, 'h, 'm) state, logs option) outcome" where
  "fit_epochs E dataloader epochs dev callbacks verbose [] s lg = (s, Inr lg)"
| "fit_epochs E dataloader epochs dev callbacks verbose (epoch # rest) s lg =
     (case fit_epoch E dataloader epochs dev callbacks verbose epoch s lg of
        (s1, Inl e) \<Rightarrow> (s1, Inl e)
      | (s1, Inr lg1) \<Rightarrow> fit_epochs E dataloader epochs dev callbacks verbose rest s1 lg1)"

text \<open>\<open>fit\<close>: \<open>range(epochs)\<close> is empty for an epoch count of zero or less.\<close>

definition fit ::
  "('a, 'p, 'o, 'h, 'm) env \<Rightarrow> ('a, 'p, 'o, 'h, 'm) state \<Rightarrow> ('a inputs \<times> 'a tensor) list \<Rightarrow> int
     \<Rightarrow> ('a inputs \<times> 'a tensor) list option \<Rightarrow> ('a, 'p, 'o, 'h, 'm) callback list \<Rightarrow> int
     \<Rightarrow> (('a, 'p, 'o, 'h, 'm) state, logs) outcome" where
  "fit E s dataloader epochs dev callbacks verbose =
     (case fit_epochs E dataloader epochs dev callbacks verbose [0..<nat epochs] s None of
        (s1, Inl e) \<Rightarrow> (s1, Inl e)
      | (s1, Inr None) \<Rightarrow> (s1, Inl (UnboundLocalError ''logs''))
      | (s1, Inr (Some lg)) \<Rightarrow> (s1, Inr lg))"

section \<open>Prediction\<close>






section \<open>Configuration and weights\<close>

text \<open>\<open>("cuda" if torch.cuda.is_available() else "cpu") if device == "auto" else device\<close>\<close>

definition select_device :: "('a, 'p, 'o, 'h, 'm) env \<Rightarrow> string \<Rightarrow> device" where
  "select_device E dev =
     (if dev = ''auto'' then (if cuda_is_available E then ''cuda'' else ''cpu'') else dev)"

text \<open>
  \<open>configure\<close> assigns every attribute anew and moves the parameters with
  \<open>self.to(self.device)\<close>. The metric collection is passed as built from the dictionary.
\<close>

definition configure ::
  "('a, 'p, 'o, 'h, 'm) env \<Rightarrow> 'o option \<Rightarrow> 'h option \<Rightarrow> ('a tensor \<Rightarrow> 'a tensor \<Rightarrow> rat) option
     \<Rightarrow> 'm \<Rightarrow> string option \<Rightarrow> string \<Rightarrow> ('a, 'p, 'o, 'h, 'm) state \<Rightarrow> ('a, 'p, 'o, 'h, 'm) state" where
  "configure E opt sch ls ms ld dev s =
     (let s1 = s\<lparr>optimizer := opt, schedule := sch, loss := ls,
                 loss_metric := \<lparr>mean_value = 0, weight = 0\<rparr>, metrics := ms,
                 logdir := ld, writers := [], device := select_device E dev\<rparr>
      in s1\<lparr>placement := device s1\<rparr>)"


definition load_weights ::
  "('a, 'p, 'o, 'h, 'm) env \<Rightarrow> ('a, 'p, 'o, 'h, 'm) state \<Rightarrow> string \<Rightarrow> string
     \<Rightarrow> (('a, 'p, 'o, 'h, 'm) state, unit) outcome" where
  "load_weights E s path dev =
     (let s1 = s\<lparr>device := select_device E dev\<rparr>
      in case files s1 path of
           None \<Rightarrow> (s1, Inl (FileNotFoundError path))
         | Some saved \<Rightarrow>
             let loaded = to (device s1) saved
             in (s1\<lparr>params := snd loaded\<rparr>, Inr ()))"

section \<open>The command line\<close>

text \<open>
  The value of an attribute of the parsed namespace: an integer, or the \<open>Ellipsis\<close>
  object that the skeleton leaves as the default of \<open>--batch_size\<close> and \<open>--epochs\<close>.
\<close>

datatype pyval = PyInt int | PyEllipsis

text \<open>The four \<open>add_argument\<close> calls: destination and default; every one has \<open>type=int\<close>.\<close>

definition parser :: "(string \<times> pyval) list" where
  "parser = [(''batch_size'', PyEllipsis), (''epochs'', PyEllipsis),
             (''seed'', PyInt 42), (''threads'', PyInt 1)]"

text \<open>
  \<open>argparse\<close> is not part of the source. Its reading of the command line into pairs of
  destination and argument string is the parameter \<open>lexer\<close> (an error is the exit of the
  program), the builtin \<open>int\<close> applied to a string is the parameter \<open>to_int\<close>. What is
  modelled is what the parser does with them: the namespace starts from the defaults,
  which are taken as they are (\<open>type\<close> is applied to a default only when it is a string),
  and every argument string is converted with \<open>type\<close> and stored; a string that \<open>int\<close>
  rejects ends the program with status 2.
\<close>

fun store_args ::
  "(string \<Rightarrow> int option) \<Rightarrow> (string \<times> string) list \<Rightarrow> (string, pyval) dict
     \<Rightarrow> error + (string, pyval) dict" where
  "store_args to_int [] ns = Inr ns"
| "store_args to_int ((dest, arg) # rest) ns =
     (case to_int arg of
        None \<Rightarrow> Inl (SystemExit 2)
      | Some i \<Rightarrow> store_args to_int rest (AList.update dest (PyInt i) ns))"

definition parse_args ::
  "(string list \<Rightarrow> error + (string \<times> string) list) \<Rightarrow> (string \<Rightarrow> int option) \<Rightarrow> string list
     \<Rightarrow> error + (string, pyval) dict" where
  "parse_args lexer to_int argv =
     (case lexer argv of
        Inl e \<Rightarrow> Inl e
      | Inr given \<Rightarrow> store_args to_int given parser)"

text \<open>
  A lexer for command lines of the plain form \<open>--name value --name value ...\<close> over the
  four flags, and a reader of unsigned decimal numerals, to run the parser on examples.
\<close>

fun plain_lexer :: "string list \<Rightarrow> error + (string \<times> string) list" where
  "plain_lexer [] = Inr []"
| "plain_lexer [flag] = Inl (SystemExit 2)"
| "plain_lexer (flag # arg # rest) =
     (if take 2 flag = ''--'' \<and> drop 2 flag \<in> set (map fst parser) then
        (case plain_lexer rest of
           Inl e \<Rightarrow> Inl e
         | Inr given \<Rightarrow> Inr ((drop 2 flag, arg) # given))
      else Inl (SystemExit 2))"

definition digit_val :: "char \<Rightarrow> nat option" where
  "digit_val c =
     (let n = (of_char c :: nat)
      in if 48 \<le> n \<and> n \<le> 57 then Some (n - 48) else None)"

fun decimal_from :: "nat \<Rightarrow> string \<Rightarrow> int option" where
  "decimal_from acc [] = Some (int acc)"
| "decimal_from acc (c # cs) =
     (case digit_val c of None \<Rightarrow> None | Some d \<Rightarrow> decimal_from (10 * acc + d) cs)"

definition decimal :: "string \<Rightarrow> int option" where
  "decimal str = (if str = [] then None else decimal_from 0 str)"

section \<open>The prediction file\<close>











section \<open>Notions used in the statements\<close>

text \<open>The loss values computed in a stretch of the trace, in order.\<close>

definition loss_values :: "event list \<Rightarrow> rat list" where
  "loss_values evs = concat (map (\<lambda>e. case e of EvLoss v \<Rightarrow> [v] | _ \<Rightarrow> []) evs)"

text \<open>The plain arithmetic mean of a list of values.\<close>

definition running_mean :: "rat list \<Rightarrow> rat" where
  "running_mean vs = sum_list vs / of_nat (length vs)"

text \<open>
  The output and the loss of a batch under evaluation: the forward pass in evaluation
  mode without gradients, on the parameters and the device of the state.
\<close>

definition batch_output ::
  "('a, 'p, 'o, 'h, 'm) env \<Rightarrow> ('a, 'p, 'o, 'h, 'm) state \<Rightarrow> 'a inputs \<times> 'a tensor \<Rightarrow> 'a tensor" where
  "batch_output E s b = forward E False False (placement s, params s) (inputs_to (device s) (fst b))"

definition batch_loss ::
  "('a, 'p, 'o, 'h, 'm) env \<Rightarrow> ('a, 'p, 'o, 'h, 'm) state \<Rightarrow> ('a tensor \<Rightarrow> 'a tensor \<Rightarrow> rat)
     \<Rightarrow> 'a inputs \<times> 'a tensor \<Rightarrow> rat" where
  "batch_loss E s l b = l (batch_output E s b) (to (device s) (snd b))"

text \<open>The events of one evaluation step with loss value \<open>v\<close>.\<close>

definition batch_events :: "rat \<Rightarrow> event list" where
  "batch_events v = [EvForward False, EvLoss v, EvLossUpdate v, EvMetricsUpdate]"

text \<open>The learning-rate entry of a training record: present when a schedule is configured.\<close>

definition lr_entry :: "('a, 'p, 'o, 'h, 'm) env \<Rightarrow> ('a, 'p, 'o, 'h, 'm) state \<Rightarrow> logs" where
  "lr_entry E s = (case schedule s of None \<Rightarrow> [] | Some h \<Rightarrow> [(''lr'', Num (get_last_lr E h))])"

text \<open>
  The record of an evaluation pass over \<open>dl\<close> with loss function \<open>l\<close>: the mean of the
  batch losses under \<open>loss\<close>, joined with what the metric collection computes after it
  has been reset and updated with every batch.
\<close>

definition evaluate_record ::
  "('a, 'p, 'o, 'h, 'm) env \<Rightarrow> ('a, 'p, 'o, 'h, 'm) state \<Rightarrow> ('a tensor \<Rightarrow> 'a tensor \<Rightarrow> rat)
     \<Rightarrow> ('a inputs \<times> 'a tensor) list \<Rightarrow> logs" where
  "evaluate_record E s l dl =
     dict_union [(''loss'', Num (running_mean (map (batch_loss E s l) dl)))]
       (collection_compute E
          (fold (\<lambda>b m. collection_update E m (batch_output E s b) (to (device s) (snd b))) dl
             (collection_reset E (metrics s))))"

text \<open>The loss value of a training step: the loss of the forward pass in the current mode.\<close>

definition train_loss ::
  "('a, 'p, 'o, 'h, 'm) env \<Rightarrow> ('a, 'p, 'o, 'h, 'm) state \<Rightarrow> ('a tensor \<Rightarrow> 'a tensor \<Rightarrow> rat)
     \<Rightarrow> 'a tensor list \<Rightarrow> 'a tensor \<Rightarrow> rat" where
  "train_loss E s l xs y = l (forward E (training s) True (placement s, params s) xs) y"

text \<open>How many writers have been created for a stream in a stretch of the trace.\<close>

definition writers_created :: "string \<Rightarrow> event list \<Rightarrow> nat" where
  "writers_created w evs =
     length (filter (\<lambda>e. case e of EvNewWriter n p \<Rightarrow> n = w | _ \<Rightarrow> False) evs)"

text \<open>The console lines of a stretch of the trace.\<close>

definition console :: "event list \<Rightarrow> event list" where
  "console evs =
     filter (\<lambda>e. case e of EvPrintEvaluation l \<Rightarrow> True | EvPrintEpoch n m l \<Rightarrow> True | _ \<Rightarrow> False) evs"

text \<open>The directory used for a stream: that of its writer in the table, or a new one.\<close>

definition stream_dir :: "('a, 'p, 'o, 'h, 'm) state \<Rightarrow> string \<Rightarrow> string \<Rightarrow> string" where
  "stream_dir s d w = (case map_of (writers s) w of Some q \<Rightarrow> q | None \<Rightarrow> path_join d w)"

text \<open>A sequence of calls of \<open>add_logs\<close>, each with stream name, record and step.\<close>

fun add_logs_calls ::
  "('a, 'p, 'o, 'h, 'm) state \<Rightarrow> (string \<times> logs \<times> nat) list \<Rightarrow> ('a, 'p, 'o, 'h, 'm) state" where
  "add_logs_calls s [] = s"
| "add_logs_calls s ((w, lg, step) # calls) = add_logs_calls (fst (add_logs s w lg step)) calls"




text \<open>The events of a list of callbacks called in order from position \<open>i\<close> with the records \<open>rs\<close>.\<close>

definition callback_events :: "nat \<Rightarrow> nat \<Rightarrow> logs list \<Rightarrow> event list" where
  "callback_events i epoch rs = map (\<lambda>(j, r). EvCallback j epoch r) (zip [i..<i + length rs] rs)"

text \<open>A callback that leaves the record as it is.\<close>

definition keeps_record :: "('a, 'p, 'o, 'h, 'm) callback \<Rightarrow> bool" where
  "keeps_record cb = (\<forall>t n x. snd (cb t n x) = x)"

text \<open>A module that can be trained: a loss function and an optimizer are configured.\<close>

definition configured :: "('a, 'p, 'o, 'h, 'm) state \<Rightarrow> bool" where
  "configured s = (loss s \<noteq> None \<and> optimizer s \<noteq> None)"

text \<open>A callback that leaves a loss function and an optimizer configured.\<close>

definition keeps_configured :: "('a, 'p, 'o, 'h, 'm) callback \<Rightarrow> bool" where
  "keeps_configured cb = (\<forall>t n x. configured t \<longrightarrow> configured (fst (cb t n x)))"

text \<open>
  The progress reports of a stretch of the trace: every record shown on the progress
  bar, paired with the loss values computed since the loss accumulator was last reset.
  \<open>vs\<close> are the values computed before the stretch.
\<close>

fun progress_reports :: "rat list \<Rightarrow> event list \<Rightarrow> (rat list \<times> logs) list" where
  "progress_reports vs [] = []"
| "progress_reports vs (EvLossReset # evs) = progress_reports [] evs"
| "progress_reports vs (EvLoss v # evs) = progress_reports (vs @ [v]) evs"
| "progress_reports vs (EvProgress d n m l # evs) = (vs, l) # progress_reports vs evs"
| "progress_reports vs (e # evs) = progress_reports vs evs"

text \<open>The loss values computed since the last reset, at the end of a stretch of the trace.\<close>

fun seen :: "rat list \<Rightarrow> event list \<Rightarrow> rat list" where
  "seen vs [] = vs"
| "seen vs (EvLossReset # evs) = seen [] evs"
| "seen vs (EvLoss v # evs) = seen (vs @ [v]) evs"
| "seen vs (e # evs) = seen vs evs"

text \<open>A stretch of the trace without progress reports.\<close>

definition quiet :: "event list \<Rightarrow> bool" where
  "quiet evs = list_all (\<lambda>e. case e of EvProgress d n m l \<Rightarrow> False | _ \<Rightarrow> True) evs"

text \<open>No metric of the collection is itself named \<open>loss\<close>.\<close>

definition no_loss_metric :: "('a, 'p, 'o, 'h, 'm) env \<Rightarrow> bool" where
  "no_loss_metric E = (\<forall>m. ''loss'' \<notin> fst ` set (collection_compute E m))"

section \<open>A small instance\<close>

text \<open>
  A module with one rational weight \<open>w\<close> that predicts \<open>w\<close> times the sum of its inputs,
  trained with the squared error: the optimizer is its learning rate, the schedule counts
  its steps and halves the rate, the metric collection holds one metric \<open>err\<close>, the sum
  of the signed errors. It serves to run the definitions on concrete inputs.
\<close>

definition example_env :: "(rat, rat, rat, nat, rat list) env" where
  "example_env = \<lparr>cuda_is_available = False,
     forward = (\<lambda>tr g w xs. (fst w, snd w * sum_list (map snd xs))),
     autograd = (\<lambda>l tr w xs y g. Some (sum_list (map snd xs))),
     optimizer_step = (\<lambda>lr w g. (lr, w - lr * (case g of None \<Rightarrow> 0 | Some d \<Rightarrow> d))),
     schedule_step = (\<lambda>h lr. (Suc h, lr / 2)),
     get_last_lr = (\<lambda>h. 1 / (of_nat h + 1)),
     collection_reset = (\<lambda>m. []),
     collection_update = (\<lambda>m p y. m @ [snd p - snd y]),
     collection_compute = (\<lambda>m. [(''err'', Num (sum_list m))]),
     unbatch = (\<lambda>a. [a])\<rparr>"

definition example_state :: "(rat, rat, rat, nat, rat list) state" where
  "example_state = \<lparr>params = 2, placement = ''cpu'', grads = None, training = True,
     optimizer = Some 1, schedule = None,
     loss = Some (\<lambda>p y. (snd p - snd y) * (snd p - snd y)),
     loss_metric = \<lparr>mean_value = 5, weight = 3\<rparr>, metrics = [7],
     logdir = None, writers = [], device = ''cpu'', files = Map.empty, trace = []\<rparr>"

definition example_data :: "(rat inputs \<times> rat tensor) list" where
  "example_data =
     [(Single (''cpu'', 1), (''cpu'', 3)), (Tuple [(''cpu'', 1), (''cpu'', 2)], (''cpu'', 4))]"

text \<open>The same instance with a metric collection whose only metric is named \<open>loss\<close>.\<close>

definition clash_env :: "(rat, rat, rat, nat, rat list) env" where
  "clash_env = example_env\<lparr>collection_compute := (\<lambda>m. [(''loss'', Num 7)])\<rparr>"




text \<open>The instance configured with a log directory.\<close>

definition logging_state :: "(rat, rat, rat, nat, rat list) state" where
  "logging_state =
     configure example_env (Some 1) None (loss example_state) [] (Some ''logs'') ''cpu'' example_state"

section \<open>Steps and passes\<close>

lemma test_step_Some:
  assumes "loss s = Some l"
  shows "test_step E s xs y =
     (s\<lparr>loss_metric := mean_update (l (forward E (training s) False (placement s, params s) xs) y) (loss_metric s),
        metrics := collection_update E (metrics s) (forward E (training s) False (placement s, params s) xs) y,
        trace := trace s @ batch_events (l (forward E (training s) False (placement s, params s) xs) y)\<rparr>,
      Inr (dict_union
             [(''loss'', mean_compute (mean_update (l (forward E (training s) False (placement s, params s) xs) y) (loss_metric s)))]
             (collection_compute E (collection_update E (metrics s) (forward E (training s) False (placement s, params s) xs) y))))"
  using assms by (simp add: test_step_def emit_def Let_def batch_events_def)

lemma test_step_None:
  assumes "loss s = None"
  shows "test_step E s xs y = (emit (EvForward False) s, Inl (TypeError ''NoneType object is not callable''))"
  using assms by (simp add: test_step_def emit_def Let_def)

lemma batch_loss_frame [simp]:
  "batch_loss E (s\<lparr>loss_metric := a, metrics := b, trace := c\<rparr>) = batch_loss E s"
  "batch_output E (s\<lparr>loss_metric := a, metrics := b, trace := c\<rparr>) = batch_output E s"
  by (simp_all add: batch_loss_def batch_output_def fun_eq_iff)

lemma evaluate_loop_Some:
  assumes "loss s = Some l" and "training s = False"
  shows "evaluate_loop E s dl lg =
     (s\<lparr>loss_metric := fold (\<lambda>b. mean_update (batch_loss E s l b)) dl (loss_metric s),
        metrics := fold (\<lambda>b m. collection_update E m (batch_output E s b) (to (device s) (snd b))) dl (metrics s),
        trace := trace s @ concat (map (\<lambda>b. batch_events (batch_loss E s l b)) dl)\<rparr>,
      Inr (if dl = [] then lg
           else Some (dict_union
              [(''loss'', mean_compute (fold (\<lambda>b. mean_update (batch_loss E s l b)) dl (loss_metric s)))]
              (collection_compute E
                 (fold (\<lambda>b m. collection_update E m (batch_output E s b) (to (device s) (snd b))) dl (metrics s))))))"
  using assms
proof (induction dl arbitrary: s lg)
  case Nil
  show ?case by simp
next
  case (Cons b dl)
  obtain xs y where b: "b = (xs, y)" by (cases b)
  let ?p = "forward E (training s) False (placement s, params s) (inputs_to (device s) xs)"
  let ?v = "l ?p (to (device s) y)"
  let ?s1 = "s\<lparr>loss_metric := mean_update ?v (loss_metric s),
        metrics := collection_update E (metrics s) ?p (to (device s) y),
        trace := trace s @ batch_events ?v\<rparr>"
  have p: "?p = batch_output E s b" and v: "?v = batch_loss E s l b"
    using Cons.prems by (simp_all add: b batch_output_def batch_loss_def)
  have "loss ?s1 = Some l" "training ?s1 = False"
    using Cons.prems by simp_all
  note ih = Cons.IH [OF this]
  show ?case
    by (simp add: b test_step_Some [OF Cons.prems(1)] ih) (simp add: batch_loss_def batch_output_def b Cons.prems)
qed

lemma loss_values_simps [simp]:
  "loss_values [] = []"
  "loss_values (EvLoss v # evs) = v # loss_values evs"
  "loss_values (xs @ ys) = loss_values xs @ loss_values ys"
  by (simp_all add: loss_values_def)

lemma loss_values_batch_events [simp]: "loss_values (batch_events v) = [v]"
  by (simp add: batch_events_def loss_values_def)

lemma fold_mean_update:
  "fold (\<lambda>b. mean_update (f b)) bs m =
     \<lparr>mean_value = mean_value m + sum_list (map f bs), weight = weight m + of_nat (length bs)\<rparr>"
  by (induction bs arbitrary: m) (simp_all add: mean_update_def algebra_simps)

lemma mean_compute_running:
  "vs \<noteq> [] \<Longrightarrow> mean_compute \<lparr>mean_value = sum_list vs, weight = of_nat (length vs)\<rparr> = Num (running_mean vs)"
  by (simp add: mean_compute_def running_mean_def)


lemma train_step_returns:
  assumes "train_step E s xs y = (s', Inr lg)"
  shows "\<exists>v evs. trace s' = trace s @ evs \<and> loss_values evs = [v]
           \<and> loss_metric s' = mean_update v (loss_metric s)
           \<and> lg = dict_union (dict_union [(''loss'', mean_compute (loss_metric s'))] (lr_entry E s'))
                     (collection_compute E (metrics s'))"
  using assms
  by (auto simp: train_step_def emit_def Let_def lr_entry_def loss_values_def
      split: option.splits prod.splits)

lemma loss_values_progress [simp]: "loss_values (EvProgress d e n l # evs) = loss_values evs"
  by (simp add: loss_values_def)


lemma fit_batches_returns:
  assumes "fit_batches E epochs verbose epoch s bs lg0 = (s', Inr r)"
  shows "\<exists>evs. trace s' = trace s @ evs \<and> length (loss_values evs) = length bs
           \<and> loss_metric s' = \<lparr>mean_value = mean_value (loss_metric s) + sum_list (loss_values evs),
                                weight = weight (loss_metric s) + of_nat (length bs)\<rparr>
           \<and> r = (if bs = [] then lg0
                  else Some (dict_union
                               (dict_union [(''loss'', mean_compute (loss_metric s'))] (lr_entry E s'))
                               (collection_compute E (metrics s'))))"
  using assms
proof (induction bs arbitrary: s lg0)
  case Nil
  then show ?case by simp
next
  case (Cons b bs)
  obtain xs y where b: "b = (xs, y)" by (cases b)
  from Cons.prems obtain s1 l where
    step: "train_step E s (inputs_to (device s) xs) (to (device s) y) = (s1, Inr l)"
    and rest: "fit_batches E epochs verbose epoch
                 (emit (EvProgress (progress_disable verbose) (epoch + 1) epochs l) s1) bs (Some l)
               = (s', Inr r)"
    by (auto simp: b split: prod.splits sum.splits)
  let ?s2 = "emit (EvProgress (progress_disable verbose) (epoch + 1) epochs l) s1"
  from train_step_returns [OF step] obtain v ev1 where
    v: "trace s1 = trace s @ ev1" "loss_values ev1 = [v]"
      "loss_metric s1 = mean_update v (loss_metric s)"
      "l = dict_union (dict_union [(''loss'', mean_compute (loss_metric s1))] (lr_entry E s1))
             (collection_compute E (metrics s1))"
    by blast
  from Cons.IH [OF rest] obtain evs where
    evs: "trace s' = trace ?s2 @ evs" "length (loss_values evs) = length bs"
      "loss_metric s' = \<lparr>mean_value = mean_value (loss_metric ?s2) + sum_list (loss_values evs),
                          weight = weight (loss_metric ?s2) + of_nat (length bs)\<rparr>"
      "r = (if bs = [] then Some l
            else Some (dict_union
                         (dict_union [(''loss'', mean_compute (loss_metric s'))] (lr_entry E s'))
                         (collection_compute E (metrics s'))))"
    by blast
  have "bs = [] \<Longrightarrow> s' = ?s2" using rest by simp
  then have "bs = [] \<Longrightarrow> loss_metric s' = loss_metric s1 \<and> lr_entry E s' = lr_entry E s1
                 \<and> metrics s' = metrics s1"
    by (simp add: emit_def lr_entry_def)
  with evs(4) v(4)
  have r: "r = Some (dict_union
                       (dict_union [(''loss'', mean_compute (loss_metric s'))] (lr_entry E s'))
                       (collection_compute E (metrics s')))"
    by (cases "bs = []") simp_all
  show ?case
    apply (rule exI [of _ "ev1 @ [EvProgress (progress_disable verbose) (epoch + 1) epochs l] @ evs"])
    using evs(1,2,3) v(1,2,3) r
    by (simp add: mean_update_def emit_def algebra_simps)
qed


lemma trace_reset_metrics [simp]:
  "trace (reset_metrics E s) = trace s @ [EvLossReset, EvMetricsReset]"
  by (simp add: reset_metrics_def emit_def Let_def)













lemma evaluate_Some:
  assumes "loss s = Some l" and "dl \<noteq> []"
  shows "evaluate E s dl verbose =
     (s\<lparr>training := False,
        loss_metric := \<lparr>mean_value = sum_list (map (batch_loss E s l) dl), weight = of_nat (length dl)\<rparr>,
        metrics := fold (\<lambda>b m. collection_update E m (batch_output E s b) (to (device s) (snd b))) dl
                     (collection_reset E (metrics s)),
        trace := trace s @ [EvEval, EvLossReset, EvMetricsReset]
                   @ concat (map (\<lambda>b. batch_events (batch_loss E s l b)) dl)
                   @ (if verbose \<noteq> 0 then [EvPrintEvaluation (evaluate_record E s l dl)] else [])\<rparr>,
      Inr (evaluate_record E s l dl))"
proof -
  let ?s1 = "reset_metrics E (emit EvEval (s\<lparr>training := False\<rparr>))"
  have s1: "?s1 = s\<lparr>training := False, loss_metric := \<lparr>mean_value = 0, weight = 0\<rparr>,
                    metrics := collection_reset E (metrics s),
                    trace := trace s @ [EvEval, EvLossReset, EvMetricsReset]\<rparr>"
    by (simp add: reset_metrics_def emit_def Let_def mean_reset_def)
  have l1: "loss ?s1 = Some l" and t1: "training ?s1 = False"
    using assms by (simp_all add: s1)
  have bo: "batch_output E ?s1 = batch_output E s"
    by (simp add: s1 batch_output_def fun_eq_iff)
  have bl: "batch_loss E ?s1 l = batch_loss E s l"
    by (simp add: s1 batch_loss_def batch_output_def fun_eq_iff)
  have dev: "device ?s1 = device s" by (simp add: s1)
  have m: "mean_compute \<lparr>mean_value = sum_list (map (batch_loss E s l) dl), weight = of_nat (length dl)\<rparr>
             = Num (running_mean (map (batch_loss E s l) dl))"
    using mean_compute_running [of "map (batch_loss E s l) dl"] assms(2) by simp
  show ?thesis
    unfolding evaluate_def Let_def evaluate_loop_Some [OF l1 t1] bo bl dev fold_mean_update
    using assms(2) by (simp add: reset_metrics_def mean_reset_def Let_def emit_def evaluate_record_def m)
qed

lemma evaluate_None:
  assumes "loss s = None" and "dl \<noteq> []"
  shows "evaluate E s dl verbose =
     (emit (EvForward False) (reset_metrics E (emit EvEval (s\<lparr>training := False\<rparr>))),
      Inl (TypeError ''NoneType object is not callable''))"
proof -
  let ?s1 = "reset_metrics E (emit EvEval (s\<lparr>training := False\<rparr>))"
  obtain xs y bs where dl: "dl = (xs, y) # bs" using assms(2) by (cases dl) auto
  have "loss ?s1 = None" using assms(1) by (simp add: reset_metrics_def emit_def Let_def)
  then show ?thesis
    by (simp add: evaluate_def dl test_step_None Let_def)
qed

lemma evaluate_Nil:
  "evaluate E s [] verbose =
     (reset_metrics E (emit EvEval (s\<lparr>training := False\<rparr>)), Inl (UnboundLocalError ''logs''))"
  by (simp add: evaluate_def)

lemma evaluate_frame:
  "params (fst (evaluate E s dl verbose)) = params s
   \<and> grads (fst (evaluate E s dl verbose)) = grads s
   \<and> placement (fst (evaluate E s dl verbose)) = placement s
   \<and> device (fst (evaluate E s dl verbose)) = device s
   \<and> optimizer (fst (evaluate E s dl verbose)) = optimizer s
   \<and> schedule (fst (evaluate E s dl verbose)) = schedule s
   \<and> loss (fst (evaluate E s dl verbose)) = loss s
   \<and> logdir (fst (evaluate E s dl verbose)) = logdir s
   \<and> writers (fst (evaluate E s dl verbose)) = writers s
   \<and> files (fst (evaluate E s dl verbose)) = files s"
proof (cases "dl = []")
  case True
  then show ?thesis by (simp add: evaluate_Nil reset_metrics_def emit_def Let_def)
next
  case False
  show ?thesis
  proof (cases "loss s")
    case None
    from evaluate_None [OF None False] show ?thesis
      by (simp add: reset_metrics_def emit_def Let_def)
  next
    case (Some l)
    from evaluate_Some [OF Some False] show ?thesis by simp
  qed
qed

lemma dict_union_Nil [simp]: "dict_union a [] = a"
  by (simp add: dict_union_def)

lemma dict_union_Cons [simp]: "dict_union a ((k, v) # b) = dict_union (AList.update k v a) b"
  by (simp add: dict_union_def)

lemma map_of_dict_union_notin:
  "k \<notin> fst ` set b \<Longrightarrow> map_of (dict_union a b) k = map_of a k"
proof (induction b arbitrary: a)
  case Nil
  show ?case by simp
next
  case (Cons x b)
  obtain k' v' where x: "x = (k', v')" by (cases x)
  from Cons.prems have "k \<noteq> k'" "k \<notin> fst ` set b" by (auto simp: x)
  with Cons.IH [of "AList.update k' v' a"] show ?case
    by (simp add: x update_conv')
qed

lemma map_of_dict_union_in:
  "distinct (map fst b) \<Longrightarrow> (k, v) \<in> set b \<Longrightarrow> map_of (dict_union a b) k = Some v"
proof (induction b arbitrary: a)
  case Nil
  then show ?case by simp
next
  case (Cons x b)
  obtain k' v' where x: "x = (k', v')" by (cases x)
  show ?case
  proof (cases "(k, v) = x")
    case True
    with Cons.prems have "k \<notin> fst ` set b" by (auto simp: x)
    from map_of_dict_union_notin [OF this, of "AList.update k' v' a"] True
    show ?thesis by (simp add: x update_conv')
  next
    case False
    with Cons.prems have "distinct (map fst b)" "(k, v) \<in> set b" by auto
    from Cons.IH [OF this, of "AList.update k' v' a"] show ?thesis by (simp add: x)
  qed
qed


lemma train_step_Some:
  assumes "loss s = Some l" and "optimizer s = Some opt"
  shows "train_step E s xs y =
     (let y_pred = forward E (training s) True (placement s, params s) xs;
          v = train_loss E s l xs y;
          g = autograd E l (training s) (placement s, params s) xs y None;
          opt1 = fst (optimizer_step E opt (params s) g);
          s' = s\<lparr>grads := g,
                 params := snd (optimizer_step E opt (params s) g),
                 optimizer := (case schedule s of None \<Rightarrow> Some opt1
                               | Some h \<Rightarrow> Some (snd (schedule_step E h opt1))),
                 schedule := (case schedule s of None \<Rightarrow> None
                              | Some h \<Rightarrow> Some (fst (schedule_step E h opt1))),
                 loss_metric := mean_update v (loss_metric s),
                 metrics := collection_update E (metrics s) y_pred y,
                 trace := trace s @ [EvZeroGrad, EvForward True, EvLoss v, EvBackward, EvOptimizerStep]
                            @ (if schedule s = None then [] else [EvScheduleStep])
                            @ [EvLossUpdate v, EvMetricsUpdate]\<rparr>
      in (s', Inr (dict_union (dict_union [(''loss'', mean_compute (loss_metric s'))] (lr_entry E s'))
                     (collection_compute E (metrics s')))))"
  using assms
  by (cases "schedule s")
    (simp_all add: train_step_def emit_def Let_def train_loss_def lr_entry_def split: prod.splits)

lemma writer_known:
  "map_of (writers s) w = Some p \<Longrightarrow> writer s w = (s, Inr p)"
  by (simp add: writer_def)

lemma writer_new:
  "map_of (writers s) w = None \<Longrightarrow> logdir s = Some d \<Longrightarrow>
   writer s w = (s\<lparr>writers := AList.update w (path_join d w) (writers s),
                    trace := trace s @ [EvNewWriter w (path_join d w)]\<rparr>, Inr (path_join d w))"
  by (simp add: writer_def emit_def Let_def)

lemma add_scalars_known:
  "map_of (writers s) w = Some p \<Longrightarrow>
   add_scalars s w items step =
     (s\<lparr>trace := trace s @ map (\<lambda>(k, v). EvAddScalar p k v step) items\<rparr>, Inr ())"
proof (induction items arbitrary: s)
  case Nil
  show ?case by simp
next
  case (Cons a items)
  obtain k v where a: "a = (k, v)" by (cases a)
  have "map_of (writers (emit (EvAddScalar p k v step) s)) w = Some p"
    using Cons.prems by (simp add: emit_def)
  from Cons.IH [OF this] show ?case
    by (simp add: a writer_known [OF Cons.prems] emit_def)
qed

lemma add_logs_noop:
  "lg = [] \<or> logdir s = None \<or> logdir s = Some [] \<Longrightarrow> add_logs s w lg step = (s, Inr ())"
  by (auto simp: add_logs_def logdir_true_def)

lemma add_logs_known:
  assumes "lg \<noteq> []" and "logdir s = Some d" and "d \<noteq> []" and "map_of (writers s) w = Some p"
  shows "add_logs s w lg step =
     (s\<lparr>trace := trace s @ map (\<lambda>(k, v). EvAddScalar p k v step) lg @ [EvFlush p]\<rparr>, Inr ())"
proof -
  let ?s1 = "s\<lparr>trace := trace s @ map (\<lambda>(k, v). EvAddScalar p k v step) lg\<rparr>"
  have w1: "map_of (writers ?s1) w = Some p" using assms(4) by simp
  show ?thesis
    using assms(1,2,3)
    by (simp add: add_logs_def logdir_true_def add_scalars_known [OF assms(4)]
        writer_known [OF w1] emit_def)
qed

lemma add_logs_new:
  assumes "lg \<noteq> []" and "logdir s = Some d" and "d \<noteq> []" and "map_of (writers s) w = None"
  shows "add_logs s w lg step =
     (s\<lparr>writers := AList.update w (path_join d w) (writers s),
        trace := trace s @ [EvNewWriter w (path_join d w)]
                   @ map (\<lambda>(k, v). EvAddScalar (path_join d w) k v step) lg
                   @ [EvFlush (path_join d w)]\<rparr>, Inr ())"
proof -
  obtain k v rest where lg: "lg = (k, v) # rest" using assms(1) by (cases lg) auto
  let ?p = "path_join d w"
  let ?s1 = "s\<lparr>writers := AList.update w ?p (writers s), trace := trace s @ [EvNewWriter w ?p]\<rparr>"
  let ?s2 = "emit (EvAddScalar ?p k v step) ?s1"
  have w2: "map_of (writers ?s2) w = Some ?p" by (simp add: emit_def update_conv')
  let ?s3 = "?s2\<lparr>trace := trace ?s2 @ map (\<lambda>(k, v). EvAddScalar ?p k v step) rest\<rparr>"
  have w3: "map_of (writers ?s3) w = Some ?p" by (simp add: emit_def update_conv')
  have sc: "add_scalars s w lg step = (?s3, Inr ())"
    by (simp add: lg writer_new [OF assms(4,2)] add_scalars_known [OF w2])
  show ?thesis
    using assms(1,2,3)
    by (simp add: add_logs_def logdir_true_def sc writer_known [OF w3]) (simp add: emit_def lg)
qed

lemma add_logs_effective:
  assumes "lg \<noteq> []" and "logdir s = Some d" and "d \<noteq> []"
  shows "add_logs s w lg step =
     (s\<lparr>writers := (if w \<in> fst ` set (writers s) then writers s
                     else AList.update w (stream_dir s d w) (writers s)),
        trace := trace s @ (if w \<in> fst ` set (writers s) then [] else [EvNewWriter w (stream_dir s d w)])
                   @ map (\<lambda>(k, v). EvAddScalar (stream_dir s d w) k v step) lg
                   @ [EvFlush (stream_dir s d w)]\<rparr>, Inr ())"
proof (cases "map_of (writers s) w")
  case None
  then have "w \<notin> fst ` set (writers s)" by (simp add: map_of_eq_None_iff)
  with add_logs_new [OF assms None, of step] None show ?thesis by (simp add: stream_dir_def)
next
  case (Some p)
  then have "w \<in> fst ` set (writers s)" by (metis map_of_eq_None_iff option.distinct(1))
  with add_logs_known [OF assms Some, of step] Some show ?thesis by (simp add: stream_dir_def)
qed

lemma writers_created_simps [simp]:
  "writers_created w [] = 0"
  "writers_created w (a @ b) = writers_created w a + writers_created w b"
  "writers_created w (EvNewWriter n p # evs) = (if n = w then 1 else 0) + writers_created w evs"
  "writers_created w (EvFlush p # evs) = writers_created w evs"
  "writers_created w (map (\<lambda>(k, v). EvAddScalar q k v step) lg) = 0"
  by (simp_all add: writers_created_def split_def)

lemma console_simps [simp]:
  "console [] = []"
  "console (a @ b) = console a @ console b"
  "console (EvNewWriter n p # evs) = console evs"
  "console (EvFlush p # evs) = console evs"
  "console (map (\<lambda>(k, v). EvAddScalar q k v step) lg) = []"
  by (simp_all add: console_def split_def)

lemma add_logs_cases:
  "add_logs s w lg step = (s, Inr ())
   \<or> (\<exists>d. lg \<noteq> [] \<and> logdir s = Some d \<and> d \<noteq> [])"
  by (cases "logdir s") (auto simp: add_logs_def logdir_true_def)

lemma add_logs_console: "console (trace (fst (add_logs s w lg step))) = console (trace s)"
  using add_logs_cases [of s w lg step]
proof
  assume "add_logs s w lg step = (s, Inr ())"
  then show ?thesis by simp
next
  assume "\<exists>d. lg \<noteq> [] \<and> logdir s = Some d \<and> d \<noteq> []"
  then obtain d where "lg \<noteq> []" "logdir s = Some d" "d \<noteq> []" by blast
  from add_logs_effective [OF this, of w step] show ?thesis by simp
qed

lemma add_logs_calls_new_writers:
  "\<exists>evs. trace (add_logs_calls s calls) = trace s @ evs
     \<and> (\<forall>w'. writers_created w' evs \<le> (if w' \<in> fst ` set (writers s) then 0 else 1))"
proof (induction calls arbitrary: s)
  case Nil
  show ?case by simp
next
  case (Cons c calls)
  obtain w lg step where c: "c = (w, lg, step)" by (cases c)
  let ?s1 = "fst (add_logs s w lg step)"
  from Cons.IH [of ?s1] obtain evs1 where
    t1: "trace (add_logs_calls ?s1 calls) = trace ?s1 @ evs1"
    and b1: "\<And>w'. writers_created w' evs1 \<le> (if w' \<in> fst ` set (writers ?s1) then 0 else 1)"
    by blast
  from add_logs_cases [of s w lg step] show ?case
  proof
    assume "add_logs s w lg step = (s, Inr ())"
    then have "?s1 = s" by simp
    with t1 b1 show ?thesis by (auto simp: c)
  next
    assume "\<exists>d. lg \<noteq> [] \<and> logdir s = Some d \<and> d \<noteq> []"
    then obtain d where d: "lg \<noteq> []" "logdir s = Some d" "d \<noteq> []" by blast
    note eff = add_logs_effective [OF d, of w step]
    let ?ev0 = "(if w \<in> fst ` set (writers s) then [] else [EvNewWriter w (stream_dir s d w)])
                   @ map (\<lambda>(k, v). EvAddScalar (stream_dir s d w) k v step) lg
                   @ [EvFlush (stream_dir s d w)]"
    have tr: "trace ?s1 = trace s @ ?ev0" using eff by simp
    have ks: "fst ` set (writers ?s1) = insert w (fst ` set (writers s))"
      using eff by (auto simp: dom_update)
    have c0: "writers_created w' ?ev0 = (if w \<notin> fst ` set (writers s) \<and> w' = w then 1 else 0)" for w'
      by auto
    have "writers_created w' (?ev0 @ evs1) \<le> (if w' \<in> fst ` set (writers s) then 0 else 1)" for w'
      using b1 [of w'] c0 [of w'] unfolding ks
      by (simp only: writers_created_simps(2)) (auto split: if_splits)
    moreover have "trace (add_logs_calls s (c # calls)) = trace s @ (?ev0 @ evs1)"
      using t1 tr by (simp add: c)
    ultimately show ?thesis by blast
  qed
qed

lemma writers_configure [simp]:
  "writers (configure E opt sch ls ms ld dv s) = []"
  "trace (configure E opt sch ls ms ld dv s) = trace s"
  "logdir (configure E opt sch ls ms ld dv s) = ld"
  by (simp_all add: configure_def Let_def)

lemma fit_epoch_returns:
  assumes "fit_epoch E dl epochs dev cbs verbose epoch s lg = (s', Inr r)"
  obtains s2 l s3 l1 s4 l2 s5 s6 where
    "fit_batches E epochs verbose epoch (reset_metrics E (emit EvTrain (s\<lparr>training := True\<rparr>))) dl lg
       = (s2, Inr (Some l))"
    and "with_dev E s2 dev l = (s3, Inr l1)"
    and "run_callbacks cbs 0 epoch s3 l1 = (s4, l2)"
    and "add_logs s4 ''train'' (train_part l2) (epoch + 1) = (s5, Inr ())"
    and "add_logs s5 ''dev'' (dev_part l2) (epoch + 1) = (s6, Inr ())"
    and "s' = (if verbose \<noteq> 0 then emit (EvPrintEpoch (epoch + 1) epochs l2) s6 else s6)"
    and "r = Some l2"
proof -
  let ?s1 = "reset_metrics E (emit EvTrain (s\<lparr>training := True\<rparr>))"
  obtain s2 r2 where b: "fit_batches E epochs verbose epoch ?s1 dl lg = (s2, r2)"
    by (cases "fit_batches E epochs verbose epoch ?s1 dl lg")
  from assms b obtain l where r2: "r2 = Inr (Some l)"
    by (cases r2; simp add: fit_epoch_def split: option.splits)
  obtain s3 r3 where d: "with_dev E s2 dev l = (s3, r3)" by (cases "with_dev E s2 dev l")
  from assms b r2 d obtain l1 where r3: "r3 = Inr l1"
    by (cases r3; simp add: fit_epoch_def)
  obtain s4 l2 where c: "run_callbacks cbs 0 epoch s3 l1 = (s4, l2)"
    by (cases "run_callbacks cbs 0 epoch s3 l1")
  obtain s5 r5 where a1: "add_logs s4 ''train'' (train_part l2) (epoch + 1) = (s5, r5)"
    by (cases "add_logs s4 ''train'' (train_part l2) (epoch + 1)")
  from assms b r2 d r3 c a1 have r5: "r5 = Inr ()"
    by (cases r5; simp add: fit_epoch_def)
  obtain s6 r6 where a2: "add_logs s5 ''dev'' (dev_part l2) (epoch + 1) = (s6, r6)"
    by (cases "add_logs s5 ''dev'' (dev_part l2) (epoch + 1)")
  from assms b r2 d r3 c a1 r5 a2 have r6: "r6 = Inr ()"
    by (cases r6; simp add: fit_epoch_def)
  from assms b r2 d r3 c a1 r5 a2 r6
  have "s' = (if verbose \<noteq> 0 then emit (EvPrintEpoch (epoch + 1) epochs l2) s6 else s6)"
    and "r = Some l2"
    by (simp_all add: fit_epoch_def split: if_splits)
  with b r2 d r3 c a1 r5 a2 r6 that show thesis by blast
qed

lemma fit_epoch_prints:
  assumes "verbose \<noteq> 0"
    and "snd (fit_epoch E dl epochs dev cbs verbose epoch s lg) = Inr r"
  shows "\<exists>l2. r = Some l2
           \<and> last (trace (fst (fit_epoch E dl epochs dev cbs verbose epoch s lg)))
               = EvPrintEpoch (epoch + 1) epochs l2"
proof -
  obtain s' where run: "fit_epoch E dl epochs dev cbs verbose epoch s lg = (s', Inr r)"
    using assms(2) by (cases "fit_epoch E dl epochs dev cbs verbose epoch s lg") simp
  from fit_epoch_returns [OF run] obtain s6 l2 where
    "s' = (if verbose \<noteq> 0 then emit (EvPrintEpoch (epoch + 1) epochs l2) s6 else s6)" "r = Some l2"
    by metis
  with assms(1) run show ?thesis by (simp add: emit_def)
qed

section \<open>Unbound \<open>logs\<close>\<close>

lemma evaluate_empty: "snd (evaluate E s [] verbose) = Inl (UnboundLocalError ''logs'')"
  by (simp add: evaluate_def)

lemma fit_no_epoch:
  "epochs \<le> 0 \<Longrightarrow> snd (fit E s dataloader epochs dev callbacks verbose) = Inl (UnboundLocalError ''logs'')"
  by (simp add: fit_def)

text \<open>
  C9. \<open>evaluate\<close> on a dataloader that yields no batch and \<open>fit\<close> with an epoch count of
  zero end in an UnboundLocalError for \<open>logs\<close> instead of returning a record; so a call
  of \<open>evaluate\<close> that returns a record had at least one batch, and a call of \<open>fit\<close> that
  returns a record had at least one epoch.
\<close>

theorem unbound_logs:
  "snd (evaluate E s [] verbose) = Inl (UnboundLocalError ''logs'')
   \<and> snd (fit E s dataloader 0 dev callbacks verbose) = Inl (UnboundLocalError ''logs'')
   \<and> (snd (evaluate E s dl verbose) = Inr r \<longrightarrow> dl \<noteq> [])
   \<and> (snd (fit E s dataloader epochs dev callbacks verbose) = Inr r \<longrightarrow> 1 \<le> epochs)"
proof -
  have "dl \<noteq> []" if "snd (evaluate E s dl verbose) = Inr r"
    using that evaluate_empty [of E s verbose] by (cases dl) auto
  moreover have "1 \<le> epochs" if "snd (fit E s dataloader epochs dev callbacks verbose) = Inr r"
  proof (rule ccontr)
    assume "\<not> 1 \<le> epochs"
    then have "epochs \<le> 0" by simp
    from fit_no_epoch [OF this, of E s dataloader dev callbacks verbose] that show False by simp
  qed
  ultimately show ?thesis
    using evaluate_empty fit_no_epoch [of 0] by blast
qed

theorem unbound_logs_witness:
  "snd (evaluate example_env example_state example_data 1)
     = Inr [(''loss'', Num (5 / 2)), (''err'', Num 1)]
   \<and> example_data \<noteq> []
   \<and> snd (fit example_env example_state example_data 1 None [] 1)
     = Inr [(''loss'', Num 1), (''err'', Num (- 2))]
   \<and> snd (evaluate example_env example_state [] 1) = Inl (UnboundLocalError ''logs'')
   \<and> snd (fit example_env example_state example_data 0 None [] 1) = Inl (UnboundLocalError ''logs'')"
proof -
  have e: "snd (evaluate example_env example_state example_data 1)
             = Inr [(''loss'', Num (5 / 2)), (''err'', Num 1)]"
    by code_simp
  have f: "snd (fit example_env example_state example_data 1 None [] 1)
             = Inr [(''loss'', Num 1), (''err'', Num (- 2))]"
    by code_simp
  show ?thesis
    using unbound_logs [where E = example_env and s = example_state and verbose = 1
        and dataloader = example_data and dev = None and callbacks = "[]" and dl = example_data
        and r = "[(''loss'', Num (5 / 2)), (''err'', Num 1)]" and epochs = 1] e f
    by (simp add: example_data_def)
qed

section \<open>Device selection\<close>

text \<open>
  C6. \<open>configure\<close> and \<open>load_weights\<close> set the device to CUDA for \<open>"auto"\<close> exactly when
  CUDA is available and to the CPU otherwise, and to the given device for any other
  argument; \<open>configure\<close> moves the parameters to that device and leaves their values.
\<close>

theorem device_selection:
  "device (configure E opt sch ls ms ld dev s) = select_device E dev
   \<and> placement (configure E opt sch ls ms ld dev s) = select_device E dev
   \<and> params (configure E opt sch ls ms ld dev s) = params s
   \<and> device (fst (load_weights E s path dev)) = select_device E dev
   \<and> select_device E dev =
       (if dev = ''auto'' then (if cuda_is_available E then ''cuda'' else ''cpu'') else dev)"
  by (simp add: configure_def load_weights_def select_device_def Let_def split: option.splits)

theorem device_selection_witness:
  "device (configure example_env None None None [] None ''auto'' example_state) = ''cpu''
   \<and> placement (configure (example_env\<lparr>cuda_is_available := True\<rparr>) None None None [] None
        ''auto'' example_state) = ''cuda''
   \<and> device (fst (load_weights example_env example_state ''weights.pt'' ''cuda:1'')) = ''cuda:1''"
  using device_selection [of example_env None None None "[]" None "''auto''" example_state
      "''weights.pt''"]
    device_selection [of "example_env\<lparr>cuda_is_available := True\<rparr>" None None None "[]" None
      "''auto''" example_state "''weights.pt''"]
    device_selection [of example_env None None None "[]" None "''cuda:1''" example_state
      "''weights.pt''"]
  by (simp add: example_env_def)

section \<open>Saving and loading weights\<close>






section \<open>Evaluation leaves the parameters alone\<close>

text \<open>
  C3, as amended. Whatever the dataloader and whether the call returns or raises,
  \<open>evaluate\<close> leaves the parameter values, their gradients and placement, the optimizer
  and the schedule as they were. On a module configured with a loss function and a
  dataloader that yields at least one batch it makes a single pass, one forward
  computation without gradients per batch in order, after resetting the accumulators,
  and returns the record that holds the mean of the batch losses and the metrics
  computed over the pass.
\<close>

theorem evaluate_leaves_parameters:
  "params (fst (evaluate E s dl verbose)) = params s
   \<and> grads (fst (evaluate E s dl verbose)) = grads s
   \<and> placement (fst (evaluate E s dl verbose)) = placement s
   \<and> optimizer (fst (evaluate E s dl verbose)) = optimizer s
   \<and> schedule (fst (evaluate E s dl verbose)) = schedule s
   \<and> (loss s = Some l \<and> dl \<noteq> [] \<longrightarrow>
        snd (evaluate E s dl verbose) = Inr (evaluate_record E s l dl)
        \<and> trace (fst (evaluate E s dl verbose)) =
            trace s @ [EvEval, EvLossReset, EvMetricsReset]
              @ concat (map (\<lambda>b. batch_events (batch_loss E s l b)) dl)
              @ (if verbose \<noteq> 0 then [EvPrintEvaluation (evaluate_record E s l dl)] else []))"
proof -
  have "snd (evaluate E s dl verbose) = Inr (evaluate_record E s l dl)
        \<and> trace (fst (evaluate E s dl verbose)) =
            trace s @ [EvEval, EvLossReset, EvMetricsReset]
              @ concat (map (\<lambda>b. batch_events (batch_loss E s l b)) dl)
              @ (if verbose \<noteq> 0 then [EvPrintEvaluation (evaluate_record E s l dl)] else [])"
    if "loss s = Some l" "dl \<noteq> []"
    using evaluate_Some [OF that, of E verbose] by simp
  with evaluate_frame [of E s dl verbose] show ?thesis by blast
qed

theorem evaluate_leaves_parameters_witness:
  "loss example_state = Some (\<lambda>p y. (snd p - snd y) * (snd p - snd y)) \<and> example_data \<noteq> []
   \<and> params (fst (evaluate example_env example_state example_data 1)) = 2
   \<and> snd (evaluate example_env example_state example_data 1)
       = Inr [(''loss'', Num (5 / 2)), (''err'', Num 1)]
   \<and> trace (fst (evaluate example_env example_state example_data 1))
       = [EvEval, EvLossReset, EvMetricsReset,
          EvForward False, EvLoss 1, EvLossUpdate 1, EvMetricsUpdate,
          EvForward False, EvLoss 4, EvLossUpdate 4, EvMetricsUpdate,
          EvPrintEvaluation [(''loss'', Num (5 / 2)), (''err'', Num 1)]]"
proof -
  have l: "loss example_state = Some (\<lambda>p y. (snd p - snd y) * (snd p - snd y))"
    by (simp add: example_state_def)
  have d: "example_data \<noteq> []" by (simp add: example_data_def)
  have r: "evaluate_record example_env example_state (\<lambda>p y. (snd p - snd y) * (snd p - snd y)) example_data
             = [(''loss'', Num (5 / 2)), (''err'', Num 1)]"
    by (simp add: evaluate_record_def example_env_def example_state_def example_data_def
        batch_loss_def batch_output_def running_mean_def to_def dict_union_def)
  have b: "map (batch_loss example_env example_state (\<lambda>p y. (snd p - snd y) * (snd p - snd y))) example_data
             = [1, 4]"
    by (simp add: example_env_def example_state_def example_data_def
        batch_loss_def batch_output_def to_def)
  have c: "concat (map (\<lambda>b. batch_events (batch_loss example_env example_state
                (\<lambda>p y. (snd p - snd y) * (snd p - snd y)) b)) example_data)
           = batch_events 1 @ batch_events 4"
    using b by (simp add: example_data_def)
  have p: "params example_state = 2" "trace example_state = []"
    by (simp_all add: example_state_def)
  show ?thesis
    using evaluate_leaves_parameters [of example_env example_state example_data 1
        "\<lambda>p y. (snd p - snd y) * (snd p - snd y)"] l d
    unfolding r c by (simp add: p batch_events_def)
qed

text \<open>
  C3 as stated fails: on a dataloader that yields no batch, and on a module configured
  without a loss function, \<open>evaluate\<close> raises instead of returning a record.
\<close>

theorem evaluate_record_counterexample:
  "snd (evaluate example_env example_state [] 1) = Inl (UnboundLocalError ''logs'')
   \<and> snd (evaluate example_env (example_state\<lparr>loss := None\<rparr>) example_data 1)
       = Inl (TypeError ''NoneType object is not callable'')"
  by (simp add: evaluate_Nil evaluate_None example_data_def)

section \<open>The training step\<close>

text \<open>
  C5, as amended. On a module configured with a loss function and an optimizer, every
  call of \<open>train_step\<close> returns and performs, in this order: gradient reset, forward pass,
  loss computation, backward pass, one optimizer update, one schedule update exactly
  when a schedule is configured, then the updates of the loss accumulator and of the
  metrics. The record returned is the item \<open>loss\<close> with the running loss, joined with
  the item \<open>lr\<close> when a schedule is configured, joined with the computed metrics: it
  holds every computed metric, the running loss under \<open>loss\<close> unless a metric has that
  name, and the learning rate under \<open>lr\<close> (when a schedule is configured) unless a
  metric has that name.
\<close>

theorem train_step_order:
  assumes "loss s = Some l" and "optimizer s = Some opt"
  shows "\<exists>s' lg. train_step E s xs y = (s', Inr lg)
           \<and> trace s' = trace s
                 @ [EvZeroGrad, EvForward True, EvLoss (train_loss E s l xs y), EvBackward, EvOptimizerStep]
                 @ (if schedule s = None then [] else [EvScheduleStep])
                 @ [EvLossUpdate (train_loss E s l xs y), EvMetricsUpdate]
           \<and> params s' = snd (optimizer_step E opt (params s)
                                (autograd E l (training s) (placement s, params s) xs y None))
           \<and> loss_metric s' = mean_update (train_loss E s l xs y) (loss_metric s)
           \<and> (schedule s' = None \<longleftrightarrow> schedule s = None)
           \<and> lg = dict_union (dict_union [(''loss'', mean_compute (loss_metric s'))] (lr_entry E s'))
                     (collection_compute E (metrics s'))
           \<and> (distinct (map fst (collection_compute E (metrics s'))) \<longrightarrow>
                (\<forall>(k, x) \<in> set (collection_compute E (metrics s')). map_of lg k = Some x))
           \<and> (''loss'' \<notin> fst ` set (collection_compute E (metrics s')) \<longrightarrow>
                map_of lg ''loss'' = Some (mean_compute (loss_metric s')))
           \<and> (''lr'' \<notin> fst ` set (collection_compute E (metrics s')) \<longrightarrow>
                map_of lg ''lr'' = (case schedule s' of None \<Rightarrow> None
                                    | Some h \<Rightarrow> Some (Num (get_last_lr E h))))"
proof -
  define g where "g = autograd E l (training s) (placement s, params s) xs y None"
  define opt1 where "opt1 = fst (optimizer_step E opt (params s) g)"
  define v where "v = train_loss E s l xs y"
  define s' where "s' = s\<lparr>grads := g,
                 params := snd (optimizer_step E opt (params s) g),
                 optimizer := (case schedule s of None \<Rightarrow> Some opt1
                               | Some h \<Rightarrow> Some (snd (schedule_step E h opt1))),
                 schedule := (case schedule s of None \<Rightarrow> None
                              | Some h \<Rightarrow> Some (fst (schedule_step E h opt1))),
                 loss_metric := mean_update v (loss_metric s),
                 metrics := collection_update E (metrics s)
                              (forward E (training s) True (placement s, params s) xs) y,
                 trace := trace s @ [EvZeroGrad, EvForward True, EvLoss v, EvBackward, EvOptimizerStep]
                            @ (if schedule s = None then [] else [EvScheduleStep])
                            @ [EvLossUpdate v, EvMetricsUpdate]\<rparr>"
  define ms where "ms = collection_compute E (metrics s')"
  define base where "base = dict_union [(''loss'', mean_compute (loss_metric s'))] (lr_entry E s')"
  have run: "train_step E s xs y = (s', Inr (dict_union base ms))"
    unfolding train_step_Some [OF assms] Let_def s'_def g_def opt1_def v_def ms_def base_def
    by (rule refl)
  have base: "base = (''loss'', mean_compute (loss_metric s')) # lr_entry E s'"
    by (simp add: base_def lr_entry_def split: option.splits)
  have tr: "trace s' = trace s
                 @ [EvZeroGrad, EvForward True, EvLoss (train_loss E s l xs y), EvBackward, EvOptimizerStep]
                 @ (if schedule s = None then [] else [EvScheduleStep])
                 @ [EvLossUpdate (train_loss E s l xs y), EvMetricsUpdate]"
    by (simp add: s'_def v_def)
  have pa: "params s' = snd (optimizer_step E opt (params s)
                                (autograd E l (training s) (placement s, params s) xs y None))"
    by (simp add: s'_def g_def)
  have lm: "loss_metric s' = mean_update (train_loss E s l xs y) (loss_metric s)"
    by (simp add: s'_def v_def)
  have sc: "schedule s' = None \<longleftrightarrow> schedule s = None"
    by (simp add: s'_def split: option.splits)
  have m1: "distinct (map fst ms) \<longrightarrow> (\<forall>(k, x) \<in> set ms. map_of (dict_union base ms) k = Some x)"
    using map_of_dict_union_in [of ms _ _ base] by auto
  have m2: "''loss'' \<notin> fst ` set ms \<longrightarrow>
              map_of (dict_union base ms) ''loss'' = Some (mean_compute (loss_metric s'))"
    using map_of_dict_union_notin [of "''loss''" ms base] by (simp add: base)
  have m3: "''lr'' \<notin> fst ` set ms \<longrightarrow>
              map_of (dict_union base ms) ''lr'' = (case schedule s' of None \<Rightarrow> None
                                    | Some h \<Rightarrow> Some (Num (get_last_lr E h)))"
    using map_of_dict_union_notin [of "''lr''" ms base]
    by (simp add: base lr_entry_def split: option.splits)
  have eq: "dict_union base ms
              = dict_union (dict_union [(''loss'', mean_compute (loss_metric s'))] (lr_entry E s'))
                  ms"
    by (simp only: base_def)
  show ?thesis
    apply (rule exI [of _ s'])
    apply (rule exI [of _ "dict_union base ms"])
    apply (fold ms_def)
    apply (intro conjI)
            apply (rule run)
           apply (rule tr)
          apply (rule pa)
         apply (rule lm)
        apply (rule sc)
       apply (rule eq)
      apply (rule m1)
     apply (rule m2)
    apply (rule m3)
    done
qed

theorem train_step_order_witness:
  "loss example_state = Some (\<lambda>p y. (snd p - snd y) * (snd p - snd y))
   \<and> optimizer example_state = Some 1
   \<and> (\<exists>s'. train_step example_env example_state [(''cpu'', 1)] (''cpu'', 3)
              = (s', Inr [(''loss'', Num (3 / 2)), (''err'', Num 6)])
          \<and> trace s' = [EvZeroGrad, EvForward True, EvLoss 1, EvBackward, EvOptimizerStep,
                         EvLossUpdate 1, EvMetricsUpdate]
          \<and> params s' = 1)
   \<and> (\<exists>s'. train_step example_env (example_state\<lparr>schedule := Some 0\<rparr>) [(''cpu'', 1)] (''cpu'', 3)
              = (s', Inr [(''loss'', Num (3 / 2)), (''lr'', Num (1 / 2)), (''err'', Num 6)])
          \<and> trace s' = [EvZeroGrad, EvForward True, EvLoss 1, EvBackward, EvOptimizerStep,
                         EvScheduleStep, EvLossUpdate 1, EvMetricsUpdate])"
proof -
  let ?l = "\<lambda>p y :: rat tensor. (snd p - snd y) * (snd p - snd y)"
  have l: "loss example_state = Some ?l" "loss (example_state\<lparr>schedule := Some 0\<rparr>) = Some ?l"
    by (simp_all add: example_state_def)
  have o: "optimizer example_state = Some 1" "optimizer (example_state\<lparr>schedule := Some 0\<rparr>) = Some 1"
    by (simp_all add: example_state_def)
  have r1: "snd (train_step example_env example_state [(''cpu'', 1)] (''cpu'', 3))
              = Inr [(''loss'', Num (3 / 2)), (''err'', Num 6)]"
    by code_simp
  have r2: "snd (train_step example_env (example_state\<lparr>schedule := Some 0\<rparr>) [(''cpu'', 1)] (''cpu'', 3))
              = Inr [(''loss'', Num (3 / 2)), (''lr'', Num (1 / 2)), (''err'', Num 6)]"
    by code_simp
  have v: "train_loss example_env example_state ?l [(''cpu'', 1)] (''cpu'', 3) = 1"
    "train_loss example_env (example_state\<lparr>schedule := Some 0\<rparr>) ?l [(''cpu'', 1)] (''cpu'', 3) = 1"
    by (simp_all add: train_loss_def example_env_def example_state_def)
  have p: "snd (optimizer_step example_env 1 (params example_state)
             (autograd example_env ?l (training example_state)
                (placement example_state, params example_state) [(''cpu'', 1)] (''cpu'', 3) None)) = 1"
    by (simp add: example_env_def example_state_def)
  have t: "trace example_state = []" "schedule example_state = None"
    by (simp_all add: example_state_def)
  from train_step_order [OF l(1) o(1), of example_env "[(''cpu'', 1)]" "(''cpu'', 3)"] r1
  have a: "\<exists>s'. train_step example_env example_state [(''cpu'', 1)] (''cpu'', 3)
              = (s', Inr [(''loss'', Num (3 / 2)), (''err'', Num 6)])
          \<and> trace s' = [EvZeroGrad, EvForward True, EvLoss 1, EvBackward, EvOptimizerStep,
                         EvLossUpdate 1, EvMetricsUpdate]
          \<and> params s' = 1"
    unfolding v p t by auto
  from train_step_order [OF l(2) o(2), of example_env "[(''cpu'', 1)]" "(''cpu'', 3)"] r2
  have b: "\<exists>s'. train_step example_env (example_state\<lparr>schedule := Some 0\<rparr>) [(''cpu'', 1)] (''cpu'', 3)
              = (s', Inr [(''loss'', Num (3 / 2)), (''lr'', Num (1 / 2)), (''err'', Num 6)])
          \<and> trace s' = [EvZeroGrad, EvForward True, EvLoss 1, EvBackward, EvOptimizerStep,
                         EvScheduleStep, EvLossUpdate 1, EvMetricsUpdate]"
    unfolding v by (auto simp: t)
  from l(1) o(1) a b show ?thesis by blast
qed

text \<open>
  C5 as stated fails: with no optimizer (the default of \<open>configure\<close>) the step raises
  after the backward pass, with no loss function it raises after the forward pass, and
  with a metric named \<open>loss\<close> the returned record holds that metric under \<open>loss\<close> and
  not the running loss.
\<close>

theorem train_step_record_counterexample:
  "snd (train_step example_env (example_state\<lparr>optimizer := None\<rparr>) [(''cpu'', 1)] (''cpu'', 3))
     = Inl (AttributeError ''NoneType object has no attribute step'')
   \<and> snd (train_step example_env (example_state\<lparr>loss := None\<rparr>) [(''cpu'', 1)] (''cpu'', 3))
     = Inl (TypeError ''NoneType object is not callable'')
   \<and> snd (train_step clash_env example_state [(''cpu'', 1)] (''cpu'', 3)) = Inr [(''loss'', Num 7)]
   \<and> mean_compute (loss_metric (fst (train_step clash_env example_state [(''cpu'', 1)] (''cpu'', 3))))
     = Num (3 / 2)"
proof -
  have a: "snd (train_step example_env (example_state\<lparr>optimizer := None\<rparr>) [(''cpu'', 1)] (''cpu'', 3))
     = Inl (AttributeError ''NoneType object has no attribute step'')"
    by (simp add: train_step_def example_state_def emit_def Let_def)
  have b: "snd (train_step example_env (example_state\<lparr>loss := None\<rparr>) [(''cpu'', 1)] (''cpu'', 3))
     = Inl (TypeError ''NoneType object is not callable'')"
    by (simp add: train_step_def example_state_def emit_def Let_def)
  have c: "snd (train_step clash_env example_state [(''cpu'', 1)] (''cpu'', 3)) = Inr [(''loss'', Num 7)]"
    by code_simp
  have d: "mean_compute (loss_metric (fst (train_step clash_env example_state [(''cpu'', 1)] (''cpu'', 3))))
     = Num (3 / 2)"
    by code_simp
  from a b c d show ?thesis by simp
qed

section \<open>Scalar logs and their writers\<close>

text \<open>
  C10, as amended. A call of \<open>add_logs\<close> in which the log directory is \<open>None\<close> or the
  empty string, or the record is empty, changes nothing: no writer is created, the writer
  table and the trace are as before. No call of \<open>add_logs\<close> writes to the console, and an
  epoch of \<open>fit\<close> that returns with \<open>verbose\<close> set ends with the console line of its
  record, whatever the log directory. In every other call the writer of the stream is
  taken from the table, or created and entered when the stream has none, the scalars are
  added in the order of the record and the writer is flushed last. Over any sequence of
  calls, from any state, no writer is created for a stream that is in the table and at
  most one for any other stream. \<open>configure\<close> empties the table, so that after it again
  at most one writer is created per stream.
\<close>

theorem add_logs_writers:
  "(lg = [] \<or> logdir s = None \<or> logdir s = Some [] \<longrightarrow> add_logs s w lg step = (s, Inr ()))
   \<and> console (trace (fst (add_logs s w lg step))) = console (trace s)
   \<and> (lg \<noteq> [] \<and> logdir s = Some d \<and> d \<noteq> [] \<longrightarrow>
        snd (add_logs s w lg step) = Inr ()
        \<and> map_of (writers (fst (add_logs s w lg step))) = (map_of (writers s))(w \<mapsto> stream_dir s d w)
        \<and> trace (fst (add_logs s w lg step)) =
            trace s @ (if w \<in> fst ` set (writers s) then [] else [EvNewWriter w (stream_dir s d w)])
              @ map (\<lambda>(k, v). EvAddScalar (stream_dir s d w) k v step) lg
              @ [EvFlush (stream_dir s d w)])
   \<and> (\<exists>evs. trace (add_logs_calls s calls) = trace s @ evs
          \<and> (\<forall>w'. writers_created w' evs \<le> (if w' \<in> fst ` set (writers s) then 0 else 1)))
   \<and> writers (configure E opt sch ls ms ld dv s) = []
   \<and> (\<exists>evs. trace (add_logs_calls (configure E opt sch ls ms ld dv s) calls) = trace s @ evs
          \<and> (\<forall>w'. writers_created w' evs \<le> 1))
   \<and> (verbose \<noteq> 0 \<and> snd (fit_epoch E dl epochs dev cbs verbose epoch s before) = Inr r \<longrightarrow>
        (\<exists>l2. r = Some l2
           \<and> last (trace (fst (fit_epoch E dl epochs dev cbs verbose epoch s before)))
               = EvPrintEpoch (epoch + 1) epochs l2))"
proof -
  have eff: "snd (add_logs s w lg step) = Inr ()
        \<and> map_of (writers (fst (add_logs s w lg step))) = (map_of (writers s))(w \<mapsto> stream_dir s d w)
        \<and> trace (fst (add_logs s w lg step)) =
            trace s @ (if w \<in> fst ` set (writers s) then [] else [EvNewWriter w (stream_dir s d w)])
              @ map (\<lambda>(k, v). EvAddScalar (stream_dir s d w) k v step) lg
              @ [EvFlush (stream_dir s d w)]"
    if h: "lg \<noteq> []" "logdir s = Some d" "d \<noteq> []"
  proof (cases "map_of (writers s) w")
    case None
    then have "w \<notin> fst ` set (writers s)" by (simp add: map_of_eq_None_iff)
    with add_logs_effective [OF h, of w step] show ?thesis by (simp add: update_conv')
  next
    case (Some q)
    then have "w \<in> fst ` set (writers s)" by (metis map_of_eq_None_iff option.distinct(1))
    moreover have "(map_of (writers s))(w \<mapsto> stream_dir s d w) = map_of (writers s)"
      using Some by (simp add: stream_dir_def map_upd_triv)
    ultimately show ?thesis using add_logs_effective [OF h, of w step] by simp
  qed
  have seq: "\<exists>evs. trace (add_logs_calls s calls) = trace s @ evs
          \<and> (\<forall>w'. writers_created w' evs \<le> (if w' \<in> fst ` set (writers s) then 0 else 1))"
    by (rule add_logs_calls_new_writers)
  have cfg: "writers (configure E opt sch ls ms ld dv s) = []" by simp
  have seqc: "\<exists>evs. trace (add_logs_calls (configure E opt sch ls ms ld dv s) calls) = trace s @ evs
          \<and> (\<forall>w'. writers_created w' evs \<le> 1)"
    using add_logs_calls_new_writers [of "configure E opt sch ls ms ld dv s" calls] by simp
  have pr: "\<exists>l2. r = Some l2
           \<and> last (trace (fst (fit_epoch E dl epochs dev cbs verbose epoch s before)))
               = EvPrintEpoch (epoch + 1) epochs l2"
    if "verbose \<noteq> 0" "snd (fit_epoch E dl epochs dev cbs verbose epoch s before) = Inr r"
    using that by (rule fit_epoch_prints)
  have a: "lg = [] \<or> logdir s = None \<or> logdir s = Some [] \<longrightarrow> add_logs s w lg step = (s, Inr ())"
    using add_logs_noop [of lg s w step] by blast
  have b: "console (trace (fst (add_logs s w lg step))) = console (trace s)"
    by (rule add_logs_console)
  show ?thesis
    apply (rule conjI, rule a)
    apply (rule conjI, rule b)
    apply (rule conjI, rule impI, elim conjE, erule (2) eff)
    apply (rule conjI, rule seq)
    apply (rule conjI, rule cfg)
    apply (rule conjI, rule seqc)
    apply (rule impI, elim conjE, erule (1) pr)
    done
qed

theorem add_logs_writers_witness:
  "logdir logging_state = Some ''logs'' \<and> ''logs'' \<noteq> [] \<and> [(''loss'', Num 1)] \<noteq> []
   \<and> writers logging_state = []
   \<and> trace (fst (add_logs logging_state ''train'' [(''loss'', Num 1)] 1))
       = [EvNewWriter ''train'' ''logs/train'', EvAddScalar ''logs/train'' ''loss'' (Num 1) 1,
          EvFlush ''logs/train'']
   \<and> writers_created ''train''
        (trace (add_logs_calls logging_state
                  [(''train'', [(''loss'', Num 1)], 1), (''train'', [(''loss'', Num 2)], 2)])) \<le> 1
   \<and> trace (add_logs_calls logging_state
                  [(''train'', [(''loss'', Num 1)], 1), (''train'', [(''loss'', Num 2)], 2)])
       = [EvNewWriter ''train'' ''logs/train'', EvAddScalar ''logs/train'' ''loss'' (Num 1) 1,
          EvFlush ''logs/train'', EvAddScalar ''logs/train'' ''loss'' (Num 2) 2,
          EvFlush ''logs/train'']
   \<and> add_logs example_state ''train'' [(''loss'', Num 1)] 1 = (example_state, Inr ())
   \<and> snd (fit_epoch example_env example_data 1 None [] 1 0 example_state None)
       = Inr (Some [(''loss'', Num 1), (''err'', Num (- 2))])
   \<and> last (trace (fst (fit_epoch example_env example_data 1 None [] 1 0 example_state None)))
       = EvPrintEpoch 1 1 [(''loss'', Num 1), (''err'', Num (- 2))]"
proof -
  let ?s = "logging_state"
  let ?calls = "[(''train'', [(''loss'', Num 1)], 1), (''train'', [(''loss'', Num 2)], 2)]"
  have ld: "logdir ?s = Some ''logs''" by (simp add: logging_state_def)
  have ws: "writers ?s = []" "trace ?s = []" "logdir example_state = None"
    by (simp_all add: logging_state_def example_state_def)
  have sd: "stream_dir ?s ''logs'' ''train'' = ''logs/train''"
    by (simp add: stream_dir_def ws path_join_def)
  have tr2: "trace (add_logs_calls ?s ?calls)
       = [EvNewWriter ''train'' ''logs/train'', EvAddScalar ''logs/train'' ''loss'' (Num 1) 1,
          EvFlush ''logs/train'', EvAddScalar ''logs/train'' ''loss'' (Num 2) 2,
          EvFlush ''logs/train'']"
    by code_simp
  have fe: "snd (fit_epoch example_env example_data 1 None [] 1 0 example_state None)
       = Inr (Some [(''loss'', Num 1), (''err'', Num (- 2))])"
    by code_simp
  note t1 = add_logs_writers [where s = ?s and lg = "[(''loss'', Num 1)]" and w = "''train''"
      and step = 1 and d = "''logs''" and calls = ?calls and verbose = 0]
  note t2 = add_logs_writers [where s = example_state and lg = "[(''loss'', Num 1)]"
      and w = "''train''" and step = 1 and verbose = 1 and E = example_env and dl = example_data
      and epochs = 1 and dev = None and cbs = "[]" and epoch = 0 and before = None
      and r = "Some [(''loss'', Num 1), (''err'', Num (- 2))]"]
  have a: "trace (fst (add_logs ?s ''train'' [(''loss'', Num 1)] 1))
       = [EvNewWriter ''train'' ''logs/train'', EvAddScalar ''logs/train'' ''loss'' (Num 1) 1,
          EvFlush ''logs/train'']"
    using t1 ld by (simp add: sd ws)
  from t1 [THEN conjunct2, THEN conjunct2, THEN conjunct2, THEN conjunct1] obtain evs where
    e: "trace (add_logs_calls ?s ?calls) = trace ?s @ evs"
       "\<forall>w'. writers_created w' evs \<le> (if w' \<in> fst ` set (writers ?s) then 0 else 1)"
    by (elim conjE exE)
  from e(1) have "evs = trace (add_logs_calls ?s ?calls)" by (simp add: ws)
  with e(2) have b: "writers_created ''train'' (trace (add_logs_calls ?s ?calls)) \<le> 1"
    by (simp add: ws)
  have c: "add_logs example_state ''train'' [(''loss'', Num 1)] 1 = (example_state, Inr ())"
    using t2 ws(3) by blast
  have d: "last (trace (fst (fit_epoch example_env example_data 1 None [] 1 0 example_state None)))
       = EvPrintEpoch 1 1 [(''loss'', Num 1), (''err'', Num (- 2))]"
    using t2 fe by auto
  from ld ws(1) a b tr2 c fe d show ?thesis by simp
qed

text \<open>
  C10 as stated fails twice. With the empty string as log directory, which is not \<open>None\<close>,
  and a record that is not empty, \<open>add_logs\<close> does nothing and no writer is flushed. And
  a stream that is logged to, then configured again, then logged to again has had two
  writers created.
\<close>

theorem add_logs_writers_counterexample:
  "logdir (example_state\<lparr>logdir := Some []\<rparr>) \<noteq> None \<and> [(''loss'', Num 1)] \<noteq> []
   \<and> add_logs (example_state\<lparr>logdir := Some []\<rparr>) ''train'' [(''loss'', Num 1)] 1
       = (example_state\<lparr>logdir := Some []\<rparr>, Inr ())
   \<and> trace (example_state\<lparr>logdir := Some []\<rparr>) = []
   \<and> trace (fst (add_logs
        (configure example_env (Some 1) None (loss example_state) [] (Some ''logs'') ''cpu''
           (fst (add_logs logging_state ''train'' [(''loss'', Num 1)] 1)))
        ''train'' [(''loss'', Num 2)] 2))
       = [EvNewWriter ''train'' ''logs/train'', EvAddScalar ''logs/train'' ''loss'' (Num 1) 1,
          EvFlush ''logs/train'',
          EvNewWriter ''train'' ''logs/train'', EvAddScalar ''logs/train'' ''loss'' (Num 2) 2,
          EvFlush ''logs/train'']
   \<and> writers_created ''train'' (trace (fst (add_logs
        (configure example_env (Some 1) None (loss example_state) [] (Some ''logs'') ''cpu''
           (fst (add_logs logging_state ''train'' [(''loss'', Num 1)] 1)))
        ''train'' [(''loss'', Num 2)] 2))) = 2"
proof -
  have a: "add_logs (example_state\<lparr>logdir := Some []\<rparr>) ''train'' [(''loss'', Num 1)] 1
       = (example_state\<lparr>logdir := Some []\<rparr>, Inr ())"
    by (simp add: add_logs_def logdir_true_def example_state_def)
  have b: "trace (example_state\<lparr>logdir := Some []\<rparr>) = []" by (simp add: example_state_def)
  have c: "trace (fst (add_logs
        (configure example_env (Some 1) None (loss example_state) [] (Some ''logs'') ''cpu''
           (fst (add_logs logging_state ''train'' [(''loss'', Num 1)] 1)))
        ''train'' [(''loss'', Num 2)] 2))
       = [EvNewWriter ''train'' ''logs/train'', EvAddScalar ''logs/train'' ''loss'' (Num 1) 1,
          EvFlush ''logs/train'',
          EvNewWriter ''train'' ''logs/train'', EvAddScalar ''logs/train'' ''loss'' (Num 2) 2,
          EvFlush ''logs/train'']"
    by code_simp
  have d: "writers_created ''train''
       [EvNewWriter ''train'' ''logs/train'', EvAddScalar ''logs/train'' ''loss'' (Num 1) 1,
          EvFlush ''logs/train'',
          EvNewWriter ''train'' ''logs/train'', EvAddScalar ''logs/train'' ''loss'' (Num 2) 2,
          EvFlush ''logs/train''] = 2"
    by (simp add: writers_created_def)
  from a b c d show ?thesis by simp
qed

section \<open>The parsed command line\<close>

lemma store_args_result:
  assumes "store_args to_int given ns0 = Inr ns"
  shows "(d \<notin> fst ` set given \<longrightarrow> map_of ns d = map_of ns0 d)
         \<and> (d \<in> fst ` set given \<longrightarrow> (\<exists>i. map_of ns d = Some (PyInt i)))"
  using assms
proof (induction given arbitrary: ns0)
  case Nil
  then show ?case by simp
next
  case (Cons a given)
  obtain d' arg where a: "a = (d', arg)" by (cases a)
  from Cons.prems obtain i where i: "to_int arg = Some i"
    and rest: "store_args to_int given (AList.update d' (PyInt i) ns0) = Inr ns"
    by (auto simp: a split: option.splits)
  note ih = Cons.IH [OF rest]
  show ?case
  proof (cases "d \<in> fst ` set given")
    case True
    with ih show ?thesis by (simp add: a)
  next
    case False
    with ih have "map_of ns d = map_of (AList.update d' (PyInt i) ns0) d" by simp
    then show ?thesis using False by (auto simp: a update_conv')
  qed
qed

text \<open>
  C7, as amended. Whenever the command line is accepted, \<open>seed\<close> and \<open>threads\<close> have
  integer values, 42 and 1 when the flag is omitted, and \<open>batch_size\<close> and \<open>epochs\<close> have
  integer values when the flag is given; when it is omitted their value is the default
  of the skeleton, the \<open>Ellipsis\<close> object.
\<close>

theorem parsed_flags:
  assumes "lexer argv = Inr given" and "parse_args lexer to_int argv = Inr ns"
  shows "(\<exists>i. map_of ns ''seed'' = Some (PyInt i))
         \<and> (\<exists>i. map_of ns ''threads'' = Some (PyInt i))
         \<and> (''seed'' \<notin> fst ` set given \<longrightarrow> map_of ns ''seed'' = Some (PyInt 42))
         \<and> (''threads'' \<notin> fst ` set given \<longrightarrow> map_of ns ''threads'' = Some (PyInt 1))
         \<and> (\<forall>d \<in> {''batch_size'', ''epochs''}.
               if d \<in> fst ` set given then (\<exists>i. map_of ns d = Some (PyInt i))
               else map_of ns d = Some PyEllipsis)"
proof -
  from assms have st: "store_args to_int given parser = Inr ns"
    by (simp add: parse_args_def)
  note r = store_args_result [OF st]
  have p: "map_of parser ''seed'' = Some (PyInt 42)" "map_of parser ''threads'' = Some (PyInt 1)"
    "map_of parser ''batch_size'' = Some PyEllipsis" "map_of parser ''epochs'' = Some PyEllipsis"
    by (simp_all add: parser_def)
  have "\<exists>i. map_of ns ''seed'' = Some (PyInt i)"
    using r [of "''seed''"] p(1) by (cases "''seed'' \<in> fst ` set given") auto
  moreover have "\<exists>i. map_of ns ''threads'' = Some (PyInt i)"
    using r [of "''threads''"] p(2) by (cases "''threads'' \<in> fst ` set given") auto
  moreover have "''seed'' \<notin> fst ` set given \<longrightarrow> map_of ns ''seed'' = Some (PyInt 42)"
    using r [of "''seed''"] p(1) by simp
  moreover have "''threads'' \<notin> fst ` set given \<longrightarrow> map_of ns ''threads'' = Some (PyInt 1)"
    using r [of "''threads''"] p(2) by simp
  moreover have "if ''batch_size'' \<in> fst ` set given then (\<exists>i. map_of ns ''batch_size'' = Some (PyInt i))
               else map_of ns ''batch_size'' = Some PyEllipsis"
    using r [of "''batch_size''"] p(3) by simp
  moreover have "if ''epochs'' \<in> fst ` set given then (\<exists>i. map_of ns ''epochs'' = Some (PyInt i))
               else map_of ns ''epochs'' = Some PyEllipsis"
    using r [of "''epochs''"] p(4) by simp
  ultimately show ?thesis by blast
qed

theorem parsed_flags_witness:
  "plain_lexer [''--epochs'', ''12'', ''--seed'', ''7''] = Inr [(''epochs'', ''12''), (''seed'', ''7'')]
   \<and> parse_args plain_lexer decimal [''--epochs'', ''12'', ''--seed'', ''7'']
       = Inr [(''batch_size'', PyEllipsis), (''epochs'', PyInt 12), (''seed'', PyInt 7),
              (''threads'', PyInt 1)]
   \<and> (\<exists>i. map_of [(''batch_size'', PyEllipsis), (''epochs'', PyInt 12), (''seed'', PyInt 7),
              (''threads'', PyInt 1)] ''threads'' = Some (PyInt i))"
proof -
  have l: "plain_lexer [''--epochs'', ''12'', ''--seed'', ''7''] = Inr [(''epochs'', ''12''), (''seed'', ''7'')]"
    by code_simp
  have p: "parse_args plain_lexer decimal [''--epochs'', ''12'', ''--seed'', ''7'']
       = Inr [(''batch_size'', PyEllipsis), (''epochs'', PyInt 12), (''seed'', PyInt 7),
              (''threads'', PyInt 1)]"
    by code_simp
  from parsed_flags [OF l p] l p show ?thesis by blast
qed

text \<open>
  C7 as stated fails: on the empty command line \<open>batch_size\<close> and \<open>epochs\<close> are
  \<open>Ellipsis\<close>, not integers.
\<close>

theorem default_flags_counterexample:
  "parse_args plain_lexer decimal []
     = Inr [(''batch_size'', PyEllipsis), (''epochs'', PyEllipsis), (''seed'', PyInt 42),
            (''threads'', PyInt 1)]"
  by (simp add: parse_args_def parser_def)

section \<open>The prediction file\<close>









section \<open>What \<open>fit\<close> returns\<close>

lemma callback_events_Cons:
  "callback_events i epoch (r # rs) = EvCallback i epoch r # callback_events (Suc i) epoch rs"
proof -
  have "[i..<i + length (r # rs)] = i # [Suc i..<Suc i + length rs]"
    using upt_rec [of i "i + Suc (length rs)"] by (simp del: upt_Suc)
  then show ?thesis by (simp add: callback_events_def del: upt_Suc)
qed

lemma run_callbacks_trace:
  "\<exists>rs. length rs = length cbs
     \<and> trace (fst (run_callbacks cbs i epoch s l)) = trace s @ callback_events i epoch rs
     \<and> (cbs \<noteq> [] \<longrightarrow> hd rs = l)
     \<and> ((\<forall>cb \<in> set cbs. keeps_record cb) \<longrightarrow>
           rs = replicate (length cbs) l \<and> snd (run_callbacks cbs i epoch s l) = l)"
proof (induction cbs arbitrary: i s l)
  case Nil
  show ?case by (simp add: callback_events_def)
next
  case (Cons cb cbs)
  obtain s1 l1 where c: "cb s epoch l = (s1, l1)" by (cases "cb s epoch l")
  let ?s2 = "s1\<lparr>trace := trace s @ [EvCallback i epoch l]\<rparr>"
  from Cons.IH [of "Suc i" ?s2 l1] obtain rs where
    rs: "length rs = length cbs"
      "trace (fst (run_callbacks cbs (Suc i) epoch ?s2 l1)) = trace ?s2 @ callback_events (Suc i) epoch rs"
      "(\<forall>cb \<in> set cbs. keeps_record cb) \<longrightarrow>
           rs = replicate (length cbs) l1 \<and> snd (run_callbacks cbs (Suc i) epoch ?s2 l1) = l1"
    by blast
  have run: "run_callbacks (cb # cbs) i epoch s l = run_callbacks cbs (Suc i) epoch ?s2 l1"
    by (simp add: c)
  have keep: "l1 = l" if "keeps_record cb"
  proof -
    from that have "snd (cb s epoch l) = l" by (simp add: keeps_record_def)
    with c show ?thesis by simp
  qed
  show ?case
  proof (rule exI [of _ "l # rs"], intro conjI)
    show "length (l # rs) = length (cb # cbs)" using rs(1) by simp
    show "trace (fst (run_callbacks (cb # cbs) i epoch s l)) = trace s @ callback_events i epoch (l # rs)"
      unfolding run rs(2) by (simp add: callback_events_Cons)
    show "cb # cbs \<noteq> [] \<longrightarrow> hd (l # rs) = l" by simp
    show "(\<forall>cb \<in> set (cb # cbs). keeps_record cb) \<longrightarrow>
           l # rs = replicate (length (cb # cbs)) l \<and> snd (run_callbacks (cb # cbs) i epoch s l) = l"
      unfolding run using rs(3) keep by auto
  qed
qed

lemma run_callbacks_configured:
  "configured s \<Longrightarrow> \<forall>cb \<in> set cbs. keeps_configured cb
   \<Longrightarrow> configured (fst (run_callbacks cbs i epoch s l))"
proof (induction cbs arbitrary: i s l)
  case Nil
  then show ?case by simp
next
  case (Cons cb cbs)
  obtain s1 l1 where c: "cb s epoch l = (s1, l1)" by (cases "cb s epoch l")
  from Cons.prems have "keeps_configured cb" by simp
  with Cons.prems(1) have "configured (fst (cb s epoch l))" by (simp add: keeps_configured_def)
  with c have "configured s1" by simp
  then have "configured (s1\<lparr>trace := trace s @ [EvCallback i epoch l]\<rparr>)"
    by (simp add: configured_def)
  moreover from Cons.prems have "\<forall>cb \<in> set cbs. keeps_configured cb" by simp
  ultimately have "configured (fst (run_callbacks cbs (Suc i) epoch
                     (s1\<lparr>trace := trace s @ [EvCallback i epoch l]\<rparr>) l1))"
    by (rule Cons.IH)
  then show ?case by (simp add: c)
qed





lemma with_dev_None: "with_dev E s None l = (s, Inr l)"
  by (simp add: with_dev_def)


lemma configured_frame:
  "loss t = loss s \<Longrightarrow> (optimizer t = None \<longleftrightarrow> optimizer s = None)
   \<Longrightarrow> configured t = configured s"
  by (simp add: configured_def)

lemma train_step_configured:
  assumes "configured s"
  shows "\<exists>s' lg. train_step E s xs y = (s', Inr lg) \<and> configured s'"
proof -
  from assms obtain l opt where l: "loss s = Some l" and o: "optimizer s = Some opt"
    by (auto simp: configured_def)
  show ?thesis
    unfolding train_step_Some [OF l o] Let_def
    by (simp add: configured_def l split: option.splits)
qed

lemma fit_batches_configured:
  assumes "configured s"
  shows "\<exists>s' r. fit_batches E epochs verbose epoch s bs lg = (s', Inr r) \<and> configured s'
           \<and> (bs \<noteq> [] \<longrightarrow> r \<noteq> None)"
  using assms
proof (induction bs arbitrary: s lg)
  case Nil
  then show ?case by simp
next
  case (Cons b bs)
  obtain xs y where b: "b = (xs, y)" by (cases b)
  from train_step_configured [OF Cons.prems, of E "inputs_to (device s) xs" "to (device s) y"]
  obtain s1 l where step: "train_step E s (inputs_to (device s) xs) (to (device s) y) = (s1, Inr l)"
    and c1: "configured s1"
    by blast
  let ?s2 = "emit (EvProgress (progress_disable verbose) (epoch + 1) epochs l) s1"
  have c2: "configured ?s2" using c1 by (simp add: configured_def emit_def)
  from Cons.IH [OF c2, of "Some l"] obtain s' r where
    rest: "fit_batches E epochs verbose epoch ?s2 bs (Some l) = (s', Inr r)" and c': "configured s'"
    and nn: "bs \<noteq> [] \<longrightarrow> r \<noteq> None"
    by blast
  have "r \<noteq> None"
  proof (cases "bs = []")
    case True
    with rest show ?thesis by auto
  next
    case False
    with nn show ?thesis by simp
  qed
  with rest c' step show ?case by (simp add: b)
qed

lemma evaluate_configured:
  assumes "configured s" and "d \<noteq> []"
  shows "\<exists>s' dr. evaluate E s d verbose = (s', Inr dr) \<and> configured s'"
proof -
  from assms(1) obtain l where l: "loss s = Some l" by (auto simp: configured_def)
  obtain s' r where run: "evaluate E s d verbose = (s', r)" by (cases "evaluate E s d verbose")
  from evaluate_Some [OF l assms(2), of E verbose, unfolded run]
  have "loss s' = loss s" "optimizer s' = optimizer s" "\<exists>dr. r = Inr dr"
    by auto
  with run assms(1) show ?thesis by (auto simp: configured_def)
qed

lemma with_dev_configured:
  assumes "configured s" and "dev \<noteq> Some []"
  shows "\<exists>s' rec. with_dev E s dev l = (s', Inr rec) \<and> configured s'"
proof (cases dev)
  case None
  with assms(1) show ?thesis by (simp add: with_dev_def)
next
  case (Some d)
  with assms(2) have "d \<noteq> []" by simp
  from evaluate_configured [OF assms(1) this, of E 0] Some show ?thesis
    by (auto simp: with_dev_def)
qed

lemma add_logs_ok:
  "snd (add_logs s w lg step) = Inr ()
   \<and> loss (fst (add_logs s w lg step)) = loss s
   \<and> optimizer (fst (add_logs s w lg step)) = optimizer s"
  using add_logs_cases [of s w lg step]
proof
  assume "add_logs s w lg step = (s, Inr ())"
  then show ?thesis by simp
next
  assume "\<exists>d. lg \<noteq> [] \<and> logdir s = Some d \<and> d \<noteq> []"
  then obtain d where "lg \<noteq> []" "logdir s = Some d" "d \<noteq> []" by blast
  from add_logs_effective [OF this, of w step] show ?thesis by simp
qed

lemma add_logs_configured:
  "configured s \<Longrightarrow> \<exists>s'. add_logs s w lg step = (s', Inr ()) \<and> configured s'"
  using add_logs_ok [of s w lg step]
  by (cases "add_logs s w lg step") (auto simp: configured_def)

lemma fit_epoch_configured:
  assumes "configured s" and "dl \<noteq> []" and "dev \<noteq> Some []"
    and "\<forall>cb \<in> set cbs. keeps_configured cb"
  shows "\<exists>s' l. fit_epoch E dl epochs dev cbs verbose e s lg = (s', Inr (Some l)) \<and> configured s'"
proof -
  let ?s1 = "reset_metrics E (emit EvTrain (s\<lparr>training := True\<rparr>))"
  have c1: "configured ?s1"
    using assms(1) by (simp add: configured_def reset_metrics_def emit_def Let_def)
  from fit_batches_configured [OF c1, of E epochs verbose e dl lg] assms(2)
  obtain s2 l where b: "fit_batches E epochs verbose e ?s1 dl lg = (s2, Inr (Some l))"
    and c2: "configured s2"
    by auto
  from with_dev_configured [OF c2 assms(3), of E l]
  obtain s3 l1 where d: "with_dev E s2 dev l = (s3, Inr l1)" and c3: "configured s3"
    by blast
  obtain s4 l2 where c: "run_callbacks cbs 0 e s3 l1 = (s4, l2)"
    by (cases "run_callbacks cbs 0 e s3 l1")
  have c4: "configured s4"
    using run_callbacks_configured [OF c3 assms(4), of 0 e l1] c by simp
  from add_logs_configured [OF c4, of "''train''" "train_part l2" "Suc e"]
  obtain s5 where a1: "add_logs s4 ''train'' (train_part l2) (Suc e) = (s5, Inr ())"
    and c5: "configured s5"
    by blast
  from add_logs_configured [OF c5, of "''dev''" "dev_part l2" "Suc e"]
  obtain s6 where a2: "add_logs s5 ''dev'' (dev_part l2) (Suc e) = (s6, Inr ())"
    and c6: "configured s6"
    by blast
  have c7: "configured (emit (EvPrintEpoch (e + 1) epochs l2) s6)"
    using c6 by (simp add: configured_def emit_def)
  have "fit_epoch E dl epochs dev cbs verbose e s lg
          = (if verbose \<noteq> 0 then emit (EvPrintEpoch (e + 1) epochs l2) s6 else s6, Inr (Some l2))"
    unfolding fit_epoch_def Let_def b by (simp add: d c a1 a2)
  with c6 c7 show ?thesis by auto
qed













section \<open>The reported loss is the running mean\<close>

lemma progress_reports_append:
  "progress_reports vs (a @ b) = progress_reports vs a @ progress_reports (seen vs a) b"
proof (induction a arbitrary: vs)
  case Nil
  show ?case by simp
next
  case (Cons e a)
  show ?case by (cases e) (simp_all add: Cons.IH)
qed

lemma seen_append: "seen vs (a @ b) = seen (seen vs a) b"
proof (induction a arbitrary: vs)
  case Nil
  show ?case by simp
next
  case (Cons e a)
  show ?case by (cases e) (simp_all add: Cons.IH)
qed

lemma quiet_simps [simp]:
  "quiet []"
  "quiet (a @ b) \<longleftrightarrow> quiet a \<and> quiet b"
  by (simp_all add: quiet_def)

lemma quiet_progress_reports: "quiet evs \<Longrightarrow> progress_reports vs evs = []"
proof (induction evs arbitrary: vs)
  case Nil
  show ?case by simp
next
  case (Cons e evs)
  then show ?case by (cases e) (simp_all add: quiet_def)
qed

lemma quiet_batch_events: "quiet (concat (map (\<lambda>b. batch_events (f b)) dl))"
  by (induction dl) (simp_all add: quiet_def batch_events_def)

lemma quiet_callback_events: "quiet (callback_events i epoch rs)"
  by (simp add: quiet_def callback_events_def list_all_iff split_def)

lemma quiet_scalars: "quiet (map (\<lambda>(k, v). EvAddScalar p k v step) lg)"
  by (simp add: quiet_def list_all_iff split_def)

lemma train_step_events:
  "\<exists>evs. trace (fst (train_step E s xs y)) = trace s @ evs \<and> quiet evs
     \<and> (\<forall>lg. snd (train_step E s xs y) = Inr lg \<longrightarrow>
          (\<exists>v. seen vs evs = vs @ [v]
             \<and> loss_metric (fst (train_step E s xs y)) = mean_update v (loss_metric s)
             \<and> lg = dict_union
                      (dict_union [(''loss'', mean_compute (loss_metric (fst (train_step E s xs y))))]
                         (lr_entry E (fst (train_step E s xs y))))
                      (collection_compute E (metrics (fst (train_step E s xs y))))))"
proof (cases "loss s")
  case None
  then have "train_step E s xs y =
      (s\<lparr>grads := None, trace := trace s @ [EvZeroGrad, EvForward True]\<rparr>,
       Inl (TypeError ''NoneType object is not callable''))"
    by (simp add: train_step_def emit_def Let_def)
  then show ?thesis by (simp add: quiet_def)
next
  case (Some l)
  show ?thesis
  proof (cases "optimizer s")
    case None
    with Some have "train_step E s xs y =
        (s\<lparr>grads := autograd E l (training s) (placement s, params s) xs y None,
           trace := trace s @ [EvZeroGrad, EvForward True,
                      EvLoss (l (forward E (training s) True (placement s, params s) xs) y),
                      EvBackward]\<rparr>,
         Inl (AttributeError ''NoneType object has no attribute step''))"
      by (simp add: train_step_def emit_def Let_def)
    then show ?thesis by (simp add: quiet_def)
  next
    case (Some opt)
    note ts = train_step_Some [OF \<open>loss s = Some l\<close> Some, of E xs y]
    show ?thesis
      unfolding ts Let_def
      by (rule exI [of _ "[EvZeroGrad, EvForward True, EvLoss (train_loss E s l xs y), EvBackward,
                            EvOptimizerStep]
                            @ (if schedule s = None then [] else [EvScheduleStep])
                            @ [EvLossUpdate (train_loss E s l xs y), EvMetricsUpdate]"])
        (simp add: quiet_def seen_append)
  qed
qed

lemma evaluate_quiet:
  "\<exists>evs. trace (fst (evaluate E s dl verbose)) = trace s @ evs \<and> quiet evs"
proof (cases "dl = []")
  case True
  then show ?thesis by (simp add: evaluate_Nil emit_def quiet_def)
next
  case False
  show ?thesis
  proof (cases "loss s")
    case None
    from evaluate_None [OF None False] show ?thesis by (simp add: emit_def quiet_def)
  next
    case (Some l)
    have q: "quiet ([EvEval, EvLossReset, EvMetricsReset]
                   @ concat (map (\<lambda>b. batch_events (batch_loss E s l b)) dl)
                   @ (if verbose \<noteq> 0 then [EvPrintEvaluation (evaluate_record E s l dl)] else []))"
      using quiet_batch_events [of "batch_loss E s l" dl] by (simp add: quiet_def)
    from evaluate_Some [OF Some False, of E verbose] q show ?thesis
      by (intro exI [of _ "[EvEval, EvLossReset, EvMetricsReset]
                   @ concat (map (\<lambda>b. batch_events (batch_loss E s l b)) dl)
                   @ (if verbose \<noteq> 0 then [EvPrintEvaluation (evaluate_record E s l dl)] else [])"])
        simp
  qed
qed

lemma with_dev_quiet:
  "\<exists>evs. trace (fst (with_dev E s dev l)) = trace s @ evs \<and> quiet evs"
proof (cases dev)
  case None
  then show ?thesis by (simp add: with_dev_def)
next
  case (Some d)
  obtain s1 r where e: "evaluate E s d 0 = (s1, r)" by (cases "evaluate E s d 0")
  from evaluate_quiet [of E s d 0] e obtain evs where "trace s1 = trace s @ evs" "quiet evs"
    by auto
  moreover have "fst (with_dev E s dev l) = s1"
    using Some e by (cases r) (simp_all add: with_dev_def)
  ultimately show ?thesis by auto
qed

lemma run_callbacks_quiet:
  "\<exists>evs. trace (fst (run_callbacks cbs i epoch s l)) = trace s @ evs \<and> quiet evs"
proof -
  from run_callbacks_trace [of cbs i epoch s l] obtain rs where
    "trace (fst (run_callbacks cbs i epoch s l)) = trace s @ callback_events i epoch rs"
    by blast
  with quiet_callback_events [of i epoch rs] show ?thesis by blast
qed

lemma add_logs_quiet:
  "\<exists>evs. trace (fst (add_logs s w lg step)) = trace s @ evs \<and> quiet evs"
  using add_logs_cases [of s w lg step]
proof
  assume "add_logs s w lg step = (s, Inr ())"
  then show ?thesis by simp
next
  assume "\<exists>d. lg \<noteq> [] \<and> logdir s = Some d \<and> d \<noteq> []"
  then obtain d where d: "lg \<noteq> []" "logdir s = Some d" "d \<noteq> []" by blast
  let ?ev = "(if w \<in> fst ` set (writers s) then [] else [EvNewWriter w (stream_dir s d w)])
                   @ map (\<lambda>(k, v). EvAddScalar (stream_dir s d w) k v step) lg
                   @ [EvFlush (stream_dir s d w)]"
  have "quiet ?ev" using quiet_scalars [of "stream_dir s d w" step lg] by (simp add: quiet_def)
  moreover have "trace (fst (add_logs s w lg step)) = trace s @ ?ev"
    using add_logs_effective [OF d, of w step] by simp
  ultimately show ?thesis by blast
qed

lemma fit_epoch_after_batches:
  "\<exists>rest. trace (fst (fit_epoch E dl epochs dev cbs verbose epoch s lg))
            = trace (fst (fit_batches E epochs verbose epoch
                            (reset_metrics E (emit EvTrain (s\<lparr>training := True\<rparr>))) dl lg)) @ rest
     \<and> quiet rest"
proof -
  let ?s1 = "reset_metrics E (emit EvTrain (s\<lparr>training := True\<rparr>))"
  let ?fe = "fit_epoch E dl epochs dev cbs verbose epoch s lg"
  obtain s2 r where b: "fit_batches E epochs verbose epoch ?s1 dl lg = (s2, r)"
    by (cases "fit_batches E epochs verbose epoch ?s1 dl lg")
  have "\<exists>rest. trace (fst ?fe) = trace s2 @ rest \<and> quiet rest"
  proof (cases r)
    case (Inl e)
    with b show ?thesis by (simp add: fit_epoch_def)
  next
    case (Inr lo)
    show ?thesis
    proof (cases lo)
      case None
      with b Inr show ?thesis by (simp add: fit_epoch_def)
    next
      case (Some l)
      obtain s3 r3 where d: "with_dev E s2 dev l = (s3, r3)" by (cases "with_dev E s2 dev l")
      from with_dev_quiet [of E s2 dev l] d obtain e3 where
        e3: "trace s3 = trace s2 @ e3" "quiet e3" by auto
      show ?thesis
      proof (cases r3)
        case (Inl e)
        with b Inr Some d e3 show ?thesis by (simp add: fit_epoch_def)
      next
        case r3: (Inr l1)
        obtain s4 l2 where c: "run_callbacks cbs 0 epoch s3 l1 = (s4, l2)"
          by (cases "run_callbacks cbs 0 epoch s3 l1")
        from run_callbacks_quiet [of cbs 0 epoch s3 l1] c obtain e4 where
          e4: "trace s4 = trace s3 @ e4" "quiet e4" by auto
        obtain s5 r5 where a1: "add_logs s4 ''train'' (train_part l2) (epoch + 1) = (s5, r5)"
          by (cases "add_logs s4 ''train'' (train_part l2) (epoch + 1)")
        from add_logs_quiet [of s4 "''train''" "train_part l2" "epoch + 1"] a1 obtain e5 where
          e5: "trace s5 = trace s4 @ e5" "quiet e5" by auto
        obtain s6 r6 where a2: "add_logs s5 ''dev'' (dev_part l2) (epoch + 1) = (s6, r6)"
          by (cases "add_logs s5 ''dev'' (dev_part l2) (epoch + 1)")
        from add_logs_quiet [of s5 "''dev''" "dev_part l2" "epoch + 1"] a2 obtain e6 where
          e6: "trace s6 = trace s5 @ e6" "quiet e6" by auto
        have t5: "trace s5 = trace s2 @ (e3 @ e4 @ e5)" "quiet (e3 @ e4 @ e5)"
          using e3 e4 e5 by simp_all
        have t6: "trace s6 = trace s2 @ (e3 @ e4 @ e5 @ e6)" "quiet (e3 @ e4 @ e5 @ e6)"
          using e3 e4 e5 e6 by simp_all
        have t7: "trace (emit (EvPrintEpoch (epoch + 1) epochs l2) s6)
                    = trace s2 @ (e3 @ e4 @ e5 @ e6 @ [EvPrintEpoch (epoch + 1) epochs l2])"
          "quiet (e3 @ e4 @ e5 @ e6 @ [EvPrintEpoch (epoch + 1) epochs l2])"
          using e3 e4 e5 e6 by (simp_all add: emit_def quiet_def)
        have f: "fst ?fe = (case r5 of Inl e \<Rightarrow> s5
                            | Inr u \<Rightarrow> (case r6 of Inl e \<Rightarrow> s6
                                | Inr u' \<Rightarrow> (if verbose \<noteq> 0
                                     then emit (EvPrintEpoch (epoch + 1) epochs l2) s6 else s6)))"
          using b Inr Some d r3 c a1 a2 by (cases r5; cases r6) (simp_all add: fit_epoch_def)
        show ?thesis
        proof (cases r5)
          case (Inl e)
          with f t5 show ?thesis by (intro exI [of _ "e3 @ e4 @ e5"]) simp
        next
          case r5: (Inr u)
          show ?thesis
          proof (cases r6)
            case (Inl e)
            with f r5 t6 show ?thesis by (intro exI [of _ "e3 @ e4 @ e5 @ e6"]) simp
          next
            case r6: (Inr u')
            show ?thesis
            proof (cases "verbose \<noteq> 0")
              case True
              with f r5 r6 t7 show ?thesis
                by (intro exI [of _ "e3 @ e4 @ e5 @ e6 @ [EvPrintEpoch (epoch + 1) epochs l2]"]) simp
            next
              case False
              with f r5 r6 t6 show ?thesis by (intro exI [of _ "e3 @ e4 @ e5 @ e6"]) simp
            qed
          qed
        qed
      qed
    qed
  qed
  with b show ?thesis by simp
qed

lemma report_loss:
  assumes "no_loss_metric E"
  shows "map_of (dict_union (dict_union [(''loss'', x)] (lr_entry E t)) (collection_compute E m)) ''loss''
           = Some x"
proof -
  have "''loss'' \<notin> fst ` set (collection_compute E m)"
    using assms by (simp add: no_loss_metric_def)
  then have "map_of (dict_union (dict_union [(''loss'', x)] (lr_entry E t)) (collection_compute E m)) ''loss''
           = map_of (dict_union [(''loss'', x)] (lr_entry E t)) ''loss''"
    by (rule map_of_dict_union_notin)
  also have "\<dots> = map_of [(''loss'', x)] ''loss''"
    by (rule map_of_dict_union_notin) (cases "schedule t"; simp add: lr_entry_def)
  finally show ?thesis by simp
qed

lemma fit_batches_reports:
  assumes "loss_metric s = \<lparr>mean_value = sum_list vs, weight = of_nat (length vs)\<rparr>"
  shows "\<exists>tr. trace (fst (fit_batches E epochs verbose epoch s bs lg)) = trace s @ tr
     \<and> (configured s \<longrightarrow>
          map (length \<circ> fst) (progress_reports vs tr) = [Suc (length vs)..<Suc (length vs + length bs)])
     \<and> (no_loss_metric E \<longrightarrow>
          (\<forall>(ws, r) \<in> set (progress_reports vs tr).
              ws \<noteq> [] \<and> map_of r ''loss'' = Some (Num (running_mean ws))))"
  using assms
proof (induction bs arbitrary: s vs lg)
  case Nil
  show ?case by simp
next
  case (Cons b bs)
  obtain xs y where b: "b = (xs, y)" by (cases b)
  let ?xs = "inputs_to (device s) xs" and ?y = "to (device s) y"
  obtain s1 r1 where ts: "train_step E s ?xs ?y = (s1, r1)" by (cases "train_step E s ?xs ?y")
  from train_step_events [of E s ?xs ?y vs] ts obtain ev1 where
    ev1: "trace s1 = trace s @ ev1" "quiet ev1"
    and ret: "\<And>l. r1 = Inr l \<Longrightarrow>
          (\<exists>v. seen vs ev1 = vs @ [v] \<and> loss_metric s1 = mean_update v (loss_metric s)
             \<and> l = dict_union (dict_union [(''loss'', mean_compute (loss_metric s1))] (lr_entry E s1))
                      (collection_compute E (metrics s1)))"
    by auto
  have pr1: "progress_reports vs ev1 = []" using ev1(2) by (rule quiet_progress_reports)
  show ?case
  proof (cases r1)
    case (Inl e)
    have nc: "\<not> configured s"
    proof
      assume "configured s"
      from train_step_configured [OF this, of E ?xs ?y] ts Inl show False by simp
    qed
    have "fit_batches E epochs verbose epoch s (b # bs) lg = (s1, Inl e)"
      using ts Inl by (simp add: b)
    with ev1 pr1 nc show ?thesis by (intro exI [of _ ev1]) simp
  next
    case (Inr l)
    from ret [OF Inr] obtain v where
      v: "seen vs ev1 = vs @ [v]" "loss_metric s1 = mean_update v (loss_metric s)"
         "l = dict_union (dict_union [(''loss'', mean_compute (loss_metric s1))] (lr_entry E s1))
                (collection_compute E (metrics s1))"
      by blast
    let ?ev = "EvProgress (progress_disable verbose) (epoch + 1) epochs l"
    let ?s2 = "emit ?ev s1"
    have acc1: "loss_metric s1 = \<lparr>mean_value = sum_list (vs @ [v]), weight = of_nat (length (vs @ [v]))\<rparr>"
      using v(2) Cons.prems by (simp add: mean_update_def)
    then have acc2: "loss_metric ?s2 = \<lparr>mean_value = sum_list (vs @ [v]), weight = of_nat (length (vs @ [v]))\<rparr>"
      by (simp add: emit_def)
    from Cons.IH [OF acc2, of "Some l"] obtain tr2 where
      tr2: "trace (fst (fit_batches E epochs verbose epoch ?s2 bs (Some l))) = trace ?s2 @ tr2"
      and cnt: "configured ?s2 \<Longrightarrow> map (length \<circ> fst) (progress_reports (vs @ [v]) tr2)
                  = [Suc (length (vs @ [v]))..<Suc (length (vs @ [v]) + length bs)]"
      and ok: "no_loss_metric E \<Longrightarrow> (\<forall>(ws, r) \<in> set (progress_reports (vs @ [v]) tr2).
                  ws \<noteq> [] \<and> map_of r ''loss'' = Some (Num (running_mean ws)))"
      by blast
    have fb: "fit_batches E epochs verbose epoch s (b # bs) lg
                = fit_batches E epochs verbose epoch ?s2 bs (Some l)"
      using ts Inr by (simp add: b)
    have tr: "trace (fst (fit_batches E epochs verbose epoch s (b # bs) lg))
                = trace s @ (ev1 @ ?ev # tr2)"
      using tr2 ev1(1) by (simp add: fb emit_def)
    have pr: "progress_reports vs (ev1 @ ?ev # tr2) = (vs @ [v], l) # progress_reports (vs @ [v]) tr2"
      by (simp add: progress_reports_append pr1 v(1))
    have mc: "mean_compute (loss_metric s1) = Num (running_mean (vs @ [v]))"
      unfolding acc1 by (rule mean_compute_running) simp
    have c: "map (length \<circ> fst) (progress_reports vs (ev1 @ ?ev # tr2))
               = [Suc (length vs)..<Suc (length vs + length (b # bs))]" if cf: "configured s"
    proof -
      from train_step_configured [OF cf, of E ?xs ?y] ts have "configured s1" by auto
      then have "configured ?s2" by (simp add: configured_def emit_def)
      have u: "[Suc (length vs)..<Suc (length vs + length (b # bs))]
                 = Suc (length vs) # [Suc (length (vs @ [v]))..<Suc (length (vs @ [v]) + length bs)]"
        by (subst upt_conv_Cons) simp_all
      from cnt [OF \<open>configured ?s2\<close>] show ?thesis
        unfolding pr u by simp
    qed
    have o: "\<forall>(ws, r) \<in> set (progress_reports vs (ev1 @ ?ev # tr2)).
               ws \<noteq> [] \<and> map_of r ''loss'' = Some (Num (running_mean ws))" if nl: "no_loss_metric E"
    proof -
      have "map_of l ''loss'' = Some (Num (running_mean (vs @ [v])))"
        unfolding v(3) report_loss [OF nl] mc ..
      with ok [OF nl] show ?thesis unfolding pr by simp
    qed
    from tr c o show ?thesis by blast
  qed
qed

lemma fit_epoch_reports:
  "\<exists>evs. trace (fst (fit_epoch E dl epochs dev cbs verbose epoch s lg))
            = trace s @ [EvTrain, EvLossReset, EvMetricsReset] @ evs
     \<and> (configured s \<longrightarrow> map (length \<circ> fst) (progress_reports [] evs) = [1..<Suc (length dl)])
     \<and> (no_loss_metric E \<longrightarrow>
          (\<forall>(ws, r) \<in> set (progress_reports [] evs).
              ws \<noteq> [] \<and> map_of r ''loss'' = Some (Num (running_mean ws))))"
proof -
  let ?s1 = "reset_metrics E (emit EvTrain (s\<lparr>training := True\<rparr>))"
  have t1: "trace ?s1 = trace s @ [EvTrain, EvLossReset, EvMetricsReset]"
    by (simp add: emit_def)
  have acc: "loss_metric ?s1 = \<lparr>mean_value = sum_list [], weight = of_nat (length ([] :: rat list))\<rparr>"
    by (simp add: reset_metrics_def emit_def Let_def mean_reset_def)
  have cf: "configured ?s1 = configured s"
    by (simp add: configured_def reset_metrics_def emit_def Let_def)
  from fit_batches_reports [OF acc, of E epochs verbose epoch dl lg] obtain tr where
    tr: "trace (fst (fit_batches E epochs verbose epoch ?s1 dl lg)) = trace ?s1 @ tr"
    and cnt: "configured ?s1 \<Longrightarrow> map (length \<circ> fst) (progress_reports [] tr) = [Suc 0..<Suc (0 + length dl)]"
    and ok: "no_loss_metric E \<Longrightarrow> (\<forall>(ws, r) \<in> set (progress_reports [] tr).
                  ws \<noteq> [] \<and> map_of r ''loss'' = Some (Num (running_mean ws)))"
    by auto
  from fit_epoch_after_batches [of E dl epochs dev cbs verbose epoch s lg] obtain rest where
    rest: "trace (fst (fit_epoch E dl epochs dev cbs verbose epoch s lg))
            = trace (fst (fit_batches E epochs verbose epoch ?s1 dl lg)) @ rest"
      "quiet rest"
    by blast
  have pr: "progress_reports [] (tr @ rest) = progress_reports [] tr"
    by (simp add: progress_reports_append quiet_progress_reports [OF rest(2)])
  have a: "trace (fst (fit_epoch E dl epochs dev cbs verbose epoch s lg))
            = trace s @ [EvTrain, EvLossReset, EvMetricsReset] @ (tr @ rest)"
    unfolding rest(1) tr t1 by simp
  have b: "configured s \<longrightarrow> map (length \<circ> fst) (progress_reports [] (tr @ rest)) = [1..<Suc (length dl)]"
    unfolding pr using cnt cf by simp
  have c: "no_loss_metric E \<longrightarrow>
          (\<forall>(ws, r) \<in> set (progress_reports [] (tr @ rest)).
              ws \<noteq> [] \<and> map_of r ''loss'' = Some (Num (running_mean ws)))"
    unfolding pr using ok by simp
  from a b c show ?thesis by blast
qed

lemma fit_epochs_reports:
  "\<exists>evs. trace (fst (fit_epochs E dl epochs dev cbs verbose es s lg)) = trace s @ evs
     \<and> (configured s \<and> dl \<noteq> [] \<and> dev \<noteq> Some [] \<and> (\<forall>cb \<in> set cbs. keeps_configured cb) \<longrightarrow>
          length (progress_reports vs evs) = length es * length dl)
     \<and> (no_loss_metric E \<longrightarrow>
          (\<forall>(ws, r) \<in> set (progress_reports vs evs).
              ws \<noteq> [] \<and> map_of r ''loss'' = Some (Num (running_mean ws))))"
proof (induction es arbitrary: s lg vs)
  case Nil
  show ?case by simp
next
  case (Cons e es)
  let ?fe = "fit_epoch E dl epochs dev cbs verbose e s lg"
  obtain s1 r1 where fe: "?fe = (s1, r1)" by (cases ?fe)
  from fit_epoch_reports [of E dl epochs dev cbs verbose e s lg] fe obtain ev0 where
    t0: "trace s1 = trace s @ [EvTrain, EvLossReset, EvMetricsReset] @ ev0"
    and cnt0: "configured s \<Longrightarrow> map (length \<circ> fst) (progress_reports [] ev0) = [1..<Suc (length dl)]"
    and ok0: "no_loss_metric E \<Longrightarrow> (\<forall>(ws, r) \<in> set (progress_reports [] ev0).
                  ws \<noteq> [] \<and> map_of r ''loss'' = Some (Num (running_mean ws)))"
    by auto
  let ?e1 = "[EvTrain, EvLossReset, EvMetricsReset] @ ev0"
  have p1: "progress_reports vs ?e1 = progress_reports [] ev0" by simp
  have len0: "length (progress_reports [] ev0) = length dl" if "configured s"
  proof -
    have "length (map (length \<circ> fst) (progress_reports [] ev0)) = length [1..<Suc (length dl)]"
      by (simp only: cnt0 [OF that])
    moreover have "length [1..<Suc (length dl)] = length dl" by (simp del: upt_Suc)
    ultimately show ?thesis by (simp only: length_map)
  qed
  show ?case
  proof (cases r1)
    case (Inl err)
    have nh: "\<not> (configured s \<and> dl \<noteq> [] \<and> dev \<noteq> Some [] \<and> (\<forall>cb \<in> set cbs. keeps_configured cb))"
    proof
      assume h: "configured s \<and> dl \<noteq> [] \<and> dev \<noteq> Some [] \<and> (\<forall>cb \<in> set cbs. keeps_configured cb)"
      then have "\<exists>s' l. ?fe = (s', Inr (Some l)) \<and> configured s'"
        by (intro fit_epoch_configured) simp_all
      with fe Inl show False by simp
    qed
    have "fit_epochs E dl epochs dev cbs verbose (e # es) s lg = (s1, Inl err)"
      using fe Inl by simp
    then have "trace (fst (fit_epochs E dl epochs dev cbs verbose (e # es) s lg)) = trace s @ ?e1"
      using t0 by simp
    moreover have "no_loss_metric E \<longrightarrow> (\<forall>(ws, r) \<in> set (progress_reports vs ?e1).
                  ws \<noteq> [] \<and> map_of r ''loss'' = Some (Num (running_mean ws)))"
      unfolding p1 using ok0 by simp
    ultimately show ?thesis using nh by blast
  next
    case (Inr lg1)
    from Cons.IH [of s1 lg1 "seen vs ?e1"] obtain ev2 where
      t2: "trace (fst (fit_epochs E dl epochs dev cbs verbose es s1 lg1)) = trace s1 @ ev2"
      and cnt2: "configured s1 \<and> dl \<noteq> [] \<and> dev \<noteq> Some [] \<and> (\<forall>cb \<in> set cbs. keeps_configured cb) \<Longrightarrow>
          length (progress_reports (seen vs ?e1) ev2) = length es * length dl"
      and ok2: "no_loss_metric E \<Longrightarrow> (\<forall>(ws, r) \<in> set (progress_reports (seen vs ?e1) ev2).
                  ws \<noteq> [] \<and> map_of r ''loss'' = Some (Num (running_mean ws)))"
      by blast
    have fes: "fit_epochs E dl epochs dev cbs verbose (e # es) s lg
                 = fit_epochs E dl epochs dev cbs verbose es s1 lg1"
      using fe Inr by simp
    have tr: "trace (fst (fit_epochs E dl epochs dev cbs verbose (e # es) s lg)) = trace s @ (?e1 @ ev2)"
      unfolding fes t2 t0 by simp
    have pr: "progress_reports vs (?e1 @ ev2)
                = progress_reports [] ev0 @ progress_reports (seen vs ?e1) ev2"
      unfolding progress_reports_append [of vs ?e1 ev2] p1 ..
    have c: "length (progress_reports vs (?e1 @ ev2)) = length (e # es) * length dl"
      if h: "configured s \<and> dl \<noteq> [] \<and> dev \<noteq> Some [] \<and> (\<forall>cb \<in> set cbs. keeps_configured cb)"
    proof -
      from h have "\<exists>s' l. ?fe = (s', Inr (Some l)) \<and> configured s'"
        by (intro fit_epoch_configured) simp_all
      with fe have "configured s1" by auto
      with h have "length (progress_reports (seen vs ?e1) ev2) = length es * length dl"
        by (intro cnt2) simp
      moreover have "length (progress_reports [] ev0) = length dl" using h by (intro len0) simp
      ultimately show ?thesis unfolding pr by simp
    qed
    have o: "\<forall>(ws, r) \<in> set (progress_reports vs (?e1 @ ev2)).
                  ws \<noteq> [] \<and> map_of r ''loss'' = Some (Num (running_mean ws))"
      if nl: "no_loss_metric E"
      unfolding pr using ok0 [OF nl] ok2 [OF nl] by auto
    from tr c o show ?thesis by blast
  qed
qed

lemma fit_trace: "trace (fst (fit E s dl epochs dev cbs verbose))
   = trace (fst (fit_epochs E dl epochs dev cbs verbose [0..<nat epochs] s None))"
  by (simp add: fit_def split: prod.splits sum.splits option.splits)

lemma fit_reports:
  "\<exists>evs. trace (fst (fit E s dl epochs dev cbs verbose)) = trace s @ evs
     \<and> (configured s \<and> dl \<noteq> [] \<and> dev \<noteq> Some [] \<and> (\<forall>cb \<in> set cbs. keeps_configured cb) \<longrightarrow>
          length (progress_reports [] evs) = nat epochs * length dl)
     \<and> (no_loss_metric E \<longrightarrow>
          (\<forall>(ws, r) \<in> set (progress_reports [] evs).
              ws \<noteq> [] \<and> map_of r ''loss'' = Some (Num (running_mean ws))))"
  using fit_epochs_reports [of E dl epochs dev cbs verbose "[0..<nat epochs]" s None "[]"]
  unfolding fit_trace by simp

lemma evaluate_reports:
  "\<exists>evs. trace (fst (evaluate E s dl verbose)) = trace s @ [EvEval, EvLossReset, EvMetricsReset] @ evs
     \<and> (loss s \<noteq> None \<and> dl \<noteq> [] \<longrightarrow> (\<exists>r. snd (evaluate E s dl verbose) = Inr r))
     \<and> (snd (evaluate E s dl verbose) = Inr r \<longrightarrow>
          dl \<noteq> []
          \<and> (\<exists>l. loss s = Some l \<and> loss_values evs = map (batch_loss E s l) dl
                \<and> evs = concat (map (\<lambda>b. batch_events (batch_loss E s l b)) dl)
                         @ (if verbose \<noteq> 0 then [EvPrintEvaluation r] else [])
                \<and> r = evaluate_record E s l dl
                \<and> r = dict_union [(''loss'', Num (running_mean (loss_values evs)))]
                        (collection_compute E (metrics (fst (evaluate E s dl verbose)))))
          \<and> (no_loss_metric E \<longrightarrow> map_of r ''loss'' = Some (Num (running_mean (loss_values evs)))))"
proof (cases "dl = []")
  case True
  then show ?thesis by (simp add: evaluate_Nil emit_def)
next
  case False
  show ?thesis
  proof (cases "loss s")
    case None
    from evaluate_None [OF None False, of E verbose] None show ?thesis
      by (intro exI [of _ "[EvForward False]"]) (simp add: emit_def)
  next
    case (Some l)
    define rec where "rec = evaluate_record E s l dl"
    define evs where "evs = concat (map (\<lambda>b. batch_events (batch_loss E s l b)) dl)
                 @ (if verbose \<noteq> 0 then [EvPrintEvaluation rec] else [])"
    note ev = evaluate_Some [OF Some False, of E verbose]
    have lv1: "loss_values (concat (map (\<lambda>b. batch_events (batch_loss E s l b)) dl))
                 = map (batch_loss E s l) dl"
      by (induction dl) simp_all
    have lv: "loss_values evs = map (batch_loss E s l) dl"
      unfolding evs_def by (simp add: lv1) (simp add: loss_values_def)
    have tr: "trace (fst (evaluate E s dl verbose)) = trace s @ [EvEval, EvLossReset, EvMetricsReset] @ evs"
      unfolding ev evs_def rec_def by simp
    have sn: "snd (evaluate E s dl verbose) = Inr rec" unfolding ev rec_def by simp
    have me: "metrics (fst (evaluate E s dl verbose))
               = fold (\<lambda>b m. collection_update E m (batch_output E s b) (to (device s) (snd b))) dl
                     (collection_reset E (metrics s))"
      unfolding ev by simp
    have rr: "rec = dict_union [(''loss'', Num (running_mean (loss_values evs)))]
                        (collection_compute E (metrics (fst (evaluate E s dl verbose))))"
      unfolding lv me rec_def by (simp add: evaluate_record_def)
    have nl: "map_of rec ''loss'' = Some (Num (running_mean (loss_values evs)))" if "no_loss_metric E"
    proof -
      have "''loss'' \<notin> fst ` set (collection_compute E (metrics (fst (evaluate E s dl verbose))))"
        using that by (simp add: no_loss_metric_def)
      from map_of_dict_union_notin [OF this] show ?thesis
        by (subst rr) simp
    qed
    have live: "loss s \<noteq> None \<and> dl \<noteq> [] \<longrightarrow> (\<exists>r. snd (evaluate E s dl verbose) = Inr r)"
      using sn by blast
    have ex: "\<exists>l. loss s = Some l \<and> loss_values evs = map (batch_loss E s l) dl
                \<and> evs = concat (map (\<lambda>b. batch_events (batch_loss E s l b)) dl)
                         @ (if verbose \<noteq> 0 then [EvPrintEvaluation rec] else [])
                \<and> rec = evaluate_record E s l dl
                \<and> rec = dict_union [(''loss'', Num (running_mean (loss_values evs)))]
                        (collection_compute E (metrics (fst (evaluate E s dl verbose))))"
      using Some lv evs_def rr rec_def by blast
    have safe: "snd (evaluate E s dl verbose) = Inr r \<longrightarrow>
          dl \<noteq> []
          \<and> (\<exists>l. loss s = Some l \<and> loss_values evs = map (batch_loss E s l) dl
                \<and> evs = concat (map (\<lambda>b. batch_events (batch_loss E s l b)) dl)
                         @ (if verbose \<noteq> 0 then [EvPrintEvaluation r] else [])
                \<and> r = evaluate_record E s l dl
                \<and> r = dict_union [(''loss'', Num (running_mean (loss_values evs)))]
                        (collection_compute E (metrics (fst (evaluate E s dl verbose)))))
          \<and> (no_loss_metric E \<longrightarrow> map_of r ''loss'' = Some (Num (running_mean (loss_values evs))))"
    proof
      assume "snd (evaluate E s dl verbose) = Inr r"
      with sn have r: "r = rec" by simp
      show "dl \<noteq> []
          \<and> (\<exists>l. loss s = Some l \<and> loss_values evs = map (batch_loss E s l) dl
                \<and> evs = concat (map (\<lambda>b. batch_events (batch_loss E s l b)) dl)
                         @ (if verbose \<noteq> 0 then [EvPrintEvaluation r] else [])
                \<and> r = evaluate_record E s l dl
                \<and> r = dict_union [(''loss'', Num (running_mean (loss_values evs)))]
                        (collection_compute E (metrics (fst (evaluate E s dl verbose)))))
          \<and> (no_loss_metric E \<longrightarrow> map_of r ''loss'' = Some (Num (running_mean (loss_values evs))))"
        unfolding r using False ex nl by blast
    qed
    from tr live safe show ?thesis by blast
  qed
qed

text \<open>
  C1, as amended. Every call of \<open>evaluate\<close> and every epoch of \<open>fit\<close> begins by
  switching the mode and resetting the loss accumulator and the metric collection, before
  any batch is processed.
  \<^item> \<open>evaluate\<close> returns when a loss function is configured and the dataloader is not
    empty. Whenever it returns, one loss value was computed per batch, the record is
    built on the arithmetic mean of those values and on the metric collection reset and
    updated with every batch, and the printed record is the returned one. Unless a metric
    is itself named \<open>loss\<close>, that mean is the value found under \<open>loss\<close>.
  \<^item> In an epoch of \<open>fit\<close> on a module with a loss function and an optimizer, one record
    is shown after every batch, the \<open>k\<close>-th after \<open>k\<close> loss values. Unless a metric is
    itself named \<open>loss\<close>, the value under \<open>loss\<close> of every record shown is the arithmetic
    mean of the loss values computed so far in that epoch.
  \<^item> The same holds of every record shown in a whole call of \<open>fit\<close>, however it ends; when
    the module stays configured and the dataloaders are not empty, \<open>fit\<close> shows one
    record for every batch of every epoch.
\<close>

theorem running_mean_of_loss:
  "(\<exists>evs. trace (fst (evaluate E s dl verbose)) = trace s @ [EvEval, EvLossReset, EvMetricsReset] @ evs
       \<and> (loss s \<noteq> None \<and> dl \<noteq> [] \<longrightarrow> (\<exists>r. snd (evaluate E s dl verbose) = Inr r))
       \<and> (snd (evaluate E s dl verbose) = Inr r \<longrightarrow>
            dl \<noteq> []
            \<and> (\<exists>l. loss s = Some l \<and> loss_values evs = map (batch_loss E s l) dl
                  \<and> evs = concat (map (\<lambda>b. batch_events (batch_loss E s l b)) dl)
                           @ (if verbose \<noteq> 0 then [EvPrintEvaluation r] else [])
                  \<and> r = evaluate_record E s l dl
                  \<and> r = dict_union [(''loss'', Num (running_mean (loss_values evs)))]
                          (collection_compute E (metrics (fst (evaluate E s dl verbose)))))
            \<and> (no_loss_metric E \<longrightarrow> map_of r ''loss'' = Some (Num (running_mean (loss_values evs))))))
   \<and> (\<exists>evs. trace (fst (fit_epoch E dl epochs dev cbs verbose epoch s lg))
               = trace s @ [EvTrain, EvLossReset, EvMetricsReset] @ evs
       \<and> (configured s \<longrightarrow> map (length \<circ> fst) (progress_reports [] evs) = [1..<Suc (length dl)])
       \<and> (no_loss_metric E \<longrightarrow>
            (\<forall>(ws, r) \<in> set (progress_reports [] evs).
                ws \<noteq> [] \<and> map_of r ''loss'' = Some (Num (running_mean ws)))))
   \<and> (\<exists>evs. trace (fst (fit E s dl epochs dev cbs verbose)) = trace s @ evs
       \<and> (configured s \<and> dl \<noteq> [] \<and> dev \<noteq> Some [] \<and> (\<forall>cb \<in> set cbs. keeps_configured cb) \<longrightarrow>
            length (progress_reports [] evs) = nat epochs * length dl)
       \<and> (no_loss_metric E \<longrightarrow>
            (\<forall>(ws, r) \<in> set (progress_reports [] evs).
                ws \<noteq> [] \<and> map_of r ''loss'' = Some (Num (running_mean ws)))))"
  apply (rule conjI, rule evaluate_reports)
  apply (rule conjI, rule fit_epoch_reports)
  apply (rule fit_reports)
  done

theorem running_mean_of_loss_witness:
  "progress_reports []
       (trace (fst (fit example_env example_state example_data 2 (Some example_data) [] 0)))
     = [([1], [(''loss'', Num 1), (''err'', Num (- 1))]),
        ([1, 1], [(''loss'', Num 1), (''err'', Num (- 2))]),
        ([25], [(''loss'', Num 25), (''err'', Num (- 5))]),
        ([25, 169], [(''loss'', Num 97), (''err'', Num (- 18))])]
   \<and> map_of [(''loss'', Num 97), (''err'', Num (- 18))] ''loss'' = Some (Num (running_mean [25, 169]))
   \<and> snd (evaluate example_env example_state example_data 1)
       = Inr [(''loss'', Num (5 / 2)), (''err'', Num 1)]
   \<and> trace (fst (evaluate example_env example_state example_data 1))
       = [EvEval, EvLossReset, EvMetricsReset, EvForward False, EvLoss 1, EvLossUpdate 1,
          EvMetricsUpdate, EvForward False, EvLoss 4, EvLossUpdate 4, EvMetricsUpdate,
          EvPrintEvaluation [(''loss'', Num (5 / 2)), (''err'', Num 1)]]
   \<and> map_of [(''loss'', Num (5 / 2)), (''err'', Num 1)] ''loss'' = Some (Num (running_mean [1, 4]))"
proof -
  let ?fit = "fit example_env example_state example_data 2 (Some example_data) [] 0"
  let ?ev = "evaluate example_env example_state example_data 1"
  let ?r = "[(''loss'', Num (5 / 2)), (''err'', Num 1)]"
  have nl: "no_loss_metric example_env"
    by (simp add: no_loss_metric_def example_env_def)
  have t0: "trace example_state = []" by (simp add: example_state_def)
  have pr: "progress_reports [] (trace (fst ?fit))
     = [([1], [(''loss'', Num 1), (''err'', Num (- 1))]),
        ([1, 1], [(''loss'', Num 1), (''err'', Num (- 2))]),
        ([25], [(''loss'', Num 25), (''err'', Num (- 5))]),
        ([25, 169], [(''loss'', Num 97), (''err'', Num (- 18))])]"
    by code_simp
  have sn: "snd ?ev = Inr ?r" by code_simp
  have tr: "trace (fst ?ev)
       = [EvEval, EvLossReset, EvMetricsReset, EvForward False, EvLoss 1, EvLossUpdate 1,
          EvMetricsUpdate, EvForward False, EvLoss 4, EvLossUpdate 4, EvMetricsUpdate,
          EvPrintEvaluation ?r]"
    by code_simp
  note inst = running_mean_of_loss [where E = example_env and s = example_state
      and dl = example_data and verbose = 1 and r = ?r]
  from inst [THEN conjunct1] obtain evs where
    e1: "trace (fst ?ev) = trace example_state @ [EvEval, EvLossReset, EvMetricsReset] @ evs"
    and e2: "snd ?ev = Inr ?r \<longrightarrow>
            example_data \<noteq> []
            \<and> (\<exists>l. loss example_state = Some l
                  \<and> loss_values evs = map (batch_loss example_env example_state l) example_data
                  \<and> evs = concat (map (\<lambda>b. batch_events (batch_loss example_env example_state l b))
                                   example_data)
                           @ (if (1 :: int) \<noteq> 0 then [EvPrintEvaluation ?r] else [])
                  \<and> ?r = evaluate_record example_env example_state l example_data
                  \<and> ?r = dict_union [(''loss'', Num (running_mean (loss_values evs)))]
                          (collection_compute example_env (metrics (fst ?ev))))
            \<and> (no_loss_metric example_env \<longrightarrow>
                  map_of ?r ''loss'' = Some (Num (running_mean (loss_values evs))))"
    by (elim exE conjE)
  from e1 have "evs = [EvForward False, EvLoss 1, EvLossUpdate 1,
          EvMetricsUpdate, EvForward False, EvLoss 4, EvLossUpdate 4, EvMetricsUpdate,
          EvPrintEvaluation ?r]"
    unfolding tr t0 by simp
  then have lv: "loss_values evs = [1, 4]" by (simp add: loss_values_def)
  from e2 sn nl have a: "map_of ?r ''loss'' = Some (Num (running_mean [1, 4]))"
    unfolding lv by blast
  note inst2 = running_mean_of_loss [where E = example_env and s = example_state
      and dl = example_data and verbose = 0 and epochs = 2 and dev = "Some example_data"
      and cbs = "[]"]
  from inst2 [THEN conjunct2, THEN conjunct2] obtain evs2 where
    f1: "trace (fst ?fit) = trace example_state @ evs2"
    and f2: "no_loss_metric example_env \<longrightarrow>
            (\<forall>(ws, r) \<in> set (progress_reports [] evs2).
                ws \<noteq> [] \<and> map_of r ''loss'' = Some (Num (running_mean ws)))"
    by (elim exE conjE)
  from f1 have "evs2 = trace (fst ?fit)" by (simp add: t0)
  with f2 nl have "\<forall>(ws, r) \<in> set (progress_reports [] (trace (fst ?fit))).
                ws \<noteq> [] \<and> map_of r ''loss'' = Some (Num (running_mean ws))"
    by simp
  then have b: "map_of [(''loss'', Num 97), (''err'', Num (- 18))] ''loss''
                  = Some (Num (running_mean [25, 169]))"
    unfolding pr by simp
  from pr b sn tr a show ?thesis by (intro conjI)
qed

text \<open>
  C1 as stated fails when the metric collection has a metric named \<open>loss\<close>: its value
  replaces the running mean in every record. With a constant metric \<open>7\<close> of that name,
  \<open>evaluate\<close> reports \<open>7\<close> for the losses \<open>1\<close> and \<open>4\<close>, and the progress bar of \<open>fit\<close>
  shows \<open>7\<close> after every batch.
\<close>

theorem running_mean_clash_counterexample:
  "snd (evaluate clash_env example_state example_data 0) = Inr [(''loss'', Num 7)]
   \<and> loss_values (trace (fst (evaluate clash_env example_state example_data 0))) = [1, 4]
   \<and> running_mean [1, 4] = 5 / 2
   \<and> progress_reports []
        (trace (fst (fit_epoch clash_env example_data 1 None [] 0 0 example_state None)))
       = [([1], [(''loss'', Num 7)]), ([1, 1], [(''loss'', Num 7)])]
   \<and> running_mean [1] = 1 \<and> running_mean [1, 1] = 1"
proof -
  have a: "snd (evaluate clash_env example_state example_data 0) = Inr [(''loss'', Num 7)]"
    by code_simp
  have b: "loss_values (trace (fst (evaluate clash_env example_state example_data 0))) = [1, 4]"
    by code_simp
  have c: "progress_reports []
        (trace (fst (fit_epoch clash_env example_data 1 None [] 0 0 example_state None)))
       = [([1], [(''loss'', Num 7)]), ([1, 1], [(''loss'', Num 7)])]"
    by code_simp
  have d: "running_mean [1, 4] = 5 / 2" "running_mean [1] = 1" "running_mean [1, 1] = 1"
    by (simp_all add: running_mean_def)
  from a b c d show ?thesis by (intro conjI)
qed


end
